theory Spec2Isabelle
  imports Complex_Main
begin

section \<open>Page source adapter: rasterizing one PDF page\<close>

text \<open>
  \<^verbatim>\<open>renderPdfToImage(arrayBuffer, pageNumber = 1)\<close> of the OCR page loads the document
  with pdf.js, clamps the requested page, fetches that page, draws it on a canvas at scale 2
  and returns \<^verbatim>\<open>{ dataUrl, totalPages }\<close>. Everything pdf.js and the canvas do is outside the
  repository; the model receives their outcomes as an environment record. Each awaited
  promise may reject, and the single \<^verbatim>\<open>catch\<close> of the function turns every rejection into
  \<^verbatim>\<open>{ dataUrl: null, totalPages: 0 }\<close>.
\<close>

record pdf_env =
  numPages :: "int option"          \<comment> \<open>\<open>None\<close>: \<^verbatim>\<open>getDocument(...).promise\<close> rejects\<close>
  pageLoads :: "int \<Rightarrow> bool"         \<comment> \<open>does \<^verbatim>\<open>pdf.getPage(k)\<close> resolve\<close>
  hasContext :: bool                \<comment> \<open>\<^verbatim>\<open>canvas.getContext('2d')\<close> is not null\<close>
  pageRenders :: "int \<Rightarrow> string option" \<comment> \<open>the JPEG data URL of page k, \<open>None\<close>: \<^verbatim>\<open>page.render\<close> rejects\<close>

datatype pdf_call = GetDocument | GetPage int | Render int

record pdf_image =
  dataUrl :: "string option"
  totalPages :: int

definition validPageNum :: "int \<Rightarrow> int \<Rightarrow> int" where
  "validPageNum pageNumber npages = max 1 (min pageNumber npages)"

definition renderPdfToImage :: "pdf_env \<Rightarrow> int \<Rightarrow> pdf_image \<times> pdf_call list" where
  "renderPdfToImage env pageNumber =
     (case numPages env of
        None \<Rightarrow> (\<lparr>dataUrl = None, totalPages = 0\<rparr>, [GetDocument])
      | Some npages \<Rightarrow>
          (let k = validPageNum pageNumber npages in
           if \<not> pageLoads env k
           then (\<lparr>dataUrl = None, totalPages = 0\<rparr>, [GetDocument, GetPage k])
           else if \<not> hasContext env
           then (\<lparr>dataUrl = None, totalPages = npages\<rparr>, [GetDocument, GetPage k])
           else (case pageRenders env k of
                   None \<Rightarrow> (\<lparr>dataUrl = None, totalPages = 0\<rparr>, [GetDocument, GetPage k, Render k])
                 | Some url \<Rightarrow>
                     (\<lparr>dataUrl = Some url, totalPages = npages\<rparr>, [GetDocument, GetPage k, Render k]))))"

text \<open>A document of three pages whose page rendering rejects, and one that renders.\<close>

definition failingRenderEnv :: pdf_env where
  "failingRenderEnv =
     \<lparr>numPages = Some 3, pageLoads = (\<lambda>k. True), hasContext = True, pageRenders = (\<lambda>k. None)\<rparr>"

definition threePageEnv :: pdf_env where
  "threePageEnv =
     \<lparr>numPages = Some 3, pageLoads = (\<lambda>k. 1 \<le> k \<and> k \<le> 3), hasContext = True,
      pageRenders = (\<lambda>k. Some ''data:image/jpeg;base64,page'')\<rparr>"

section \<open>Jobs and the job list\<close>

text \<open>
  Values of parsed JSON, as \<^verbatim>\<open>response.json()\<close> delivers them. JavaScript's \<^verbatim>\<open>undefined\<close>
  (a missing key, an index out of range) is \<open>None\<close> of an option type around them.
\<close>

datatype json =
    JNull
  | JBool bool
  | JNum real
  | JStr string
  | JArr "json list"
  | JObj "(string \<times> json) list"

text \<open>JavaScript truthiness of a JSON value, and of a value that may be \<^verbatim>\<open>undefined\<close>.\<close>

fun truthy :: "json \<Rightarrow> bool" where
  "truthy JNull = False"
| "truthy (JBool b) = b"
| "truthy (JNum n) = (n \<noteq> 0)"
| "truthy (JStr s) = (s \<noteq> [])"
| "truthy (JArr xs) = True"
| "truthy (JObj kvs) = True"

fun truthyOpt :: "json option \<Rightarrow> bool" where
  "truthyOpt None = False"
| "truthyOpt (Some v) = truthy v"

datatype js_error = TypeError

text \<open>
  Reading the property \<^verbatim>\<open>res\<close> of a value: a key lookup on an object, \<^verbatim>\<open>undefined\<close> on an
  array, string, number or boolean, and a TypeError on \<^verbatim>\<open>null\<close>.
\<close>

fun getRes :: "json \<Rightarrow> js_error + json option" where
  "getRes JNull = Inl TypeError"
| "getRes (JObj kvs) = Inr (map_of kvs ''res'')"
| "getRes v = Inr None"

text \<open>
  The raw result payload of a job, as \<^verbatim>\<open>getResultData\<close> casts it:
  \<^verbatim>\<open>{ res?: OcrResultData; results?: Array<{ res?: OcrResultData } | OcrResultData> }\<close>.
  The two keys are optional; what they hold is whatever the server sent.
\<close>

record result_payload =
  res :: "json option"
  results :: "json list option"

datatype job_status = Processing | Completed | Failed

datatype OcrModel = PpOcrV5 | PpStructureV3 | PaddleOcrVl

text \<open>
  \<^verbatim>\<open>OcrJob\<close> with the fields the page reads and writes. The source's field \<^verbatim>\<open>id\<close> is
  \<open>job_id\<close> here.
\<close>

record OcrJob =
  job_id :: string
  filename :: string
  model :: OcrModel
  modelOptions :: "(string \<times> json) list"
  status :: job_status
  createdAt :: int
  s3Key :: "string option"
  imageAvailable :: "bool option"
  result :: "result_payload option"
  processingTimeMs :: "int option"

text \<open>
  \<^verbatim>\<open>Partial<OcrJob>\<close>, restricted to the keys the page passes to \<^verbatim>\<open>updateJob\<close>. \<open>None\<close> is a
  key that the update object does not have; for the optional fields \<open>Some None\<close> is a key
  that is present and holds \<^verbatim>\<open>undefined\<close> (the spread then overwrites the field with it).
\<close>

record job_updates =
  u_status :: "job_status option"
  u_result :: "result_payload option option"
  u_processingTimeMs :: "int option option"
  u_s3Key :: "string option"
  u_imageAvailable :: "bool option"

definition noUpdates :: job_updates where
  "noUpdates = \<lparr>u_status = None, u_result = None, u_processingTimeMs = None,
                 u_s3Key = None, u_imageAvailable = None\<rparr>"

text \<open>\<^verbatim>\<open>{ ...job, ...updates }\<close>\<close>

definition applyUpdates :: "OcrJob \<Rightarrow> job_updates \<Rightarrow> OcrJob" where
  "applyUpdates job u =
     job\<lparr>status := (case u_status u of None \<Rightarrow> status job | Some s \<Rightarrow> s),
         result := (case u_result u of None \<Rightarrow> result job | Some r \<Rightarrow> r),
         processingTimeMs := (case u_processingTimeMs u of None \<Rightarrow> processingTimeMs job | Some t \<Rightarrow> t),
         s3Key := (case u_s3Key u of None \<Rightarrow> s3Key job | Some k \<Rightarrow> Some k),
         imageAvailable := (case u_imageAvailable u of None \<Rightarrow> imageAvailable job | Some b \<Rightarrow> Some b)\<rparr>"

text \<open>
  The job list of \<^verbatim>\<open>AppLayout\<close> and its four mutators. \<^verbatim>\<open>addJob\<close> and \<^verbatim>\<open>replaceJobId\<close> also
  move the current-job pointer.
\<close>

record job_list =
  jobs :: "OcrJob list"
  currentJobId :: "string option"

definition setJobs :: "OcrJob list \<Rightarrow> job_list \<Rightarrow> job_list" where
  "setJobs newJobs l = l\<lparr>jobs := newJobs\<rparr>"

definition addJob :: "OcrJob \<Rightarrow> job_list \<Rightarrow> job_list" where
  "addJob job l = l\<lparr>jobs := job # jobs l, currentJobId := Some (job_id job)\<rparr>"

definition updateJob :: "string \<Rightarrow> job_updates \<Rightarrow> job_list \<Rightarrow> job_list" where
  "updateJob i updates l =
     l\<lparr>jobs := map (\<lambda>job. if job_id job = i then applyUpdates job updates else job) (jobs l)\<rparr>"

definition replaceJobId :: "string \<Rightarrow> string \<Rightarrow> job_list \<Rightarrow> job_list" where
  "replaceJobId oldId newId l =
     l\<lparr>jobs := map (\<lambda>job. if job_id job = oldId then job\<lparr>job_id := newId\<rparr> else job) (jobs l),
       currentJobId := (if currentJobId l = Some oldId then Some newId else currentJobId l)\<rparr>"

text \<open>\<^verbatim>\<open>jobs.find((j) => j.id === id)\<close>\<close>

definition findJob :: "string \<Rightarrow> OcrJob list \<Rightarrow> OcrJob option" where
  "findJob i js = List.find (\<lambda>j. job_id j = i) js"

text \<open>
  \<^verbatim>\<open>fetchJobs\<close>: one entry of the server's job listing and the \<^verbatim>\<open>OcrJob\<close> built from it. The
  listing carries no result and no processing time; \<^verbatim>\<open>imageAvailable\<close> is set to true.
\<close>

record listed_job =
  l_id :: string
  l_filename :: string
  l_s3Key :: string
  l_createdAt :: int
  l_model :: OcrModel
  l_modelOptions :: "(string \<times> json) list"
  l_status :: job_status

definition fromListing :: "listed_job \<Rightarrow> OcrJob" where
  "fromListing j =
     \<lparr>job_id = l_id j, filename = l_filename j, model = l_model j,
      modelOptions = l_modelOptions j, status = l_status j, createdAt = l_createdAt j,
      s3Key = Some (l_s3Key j), imageAvailable = Some True, result = None,
      processingTimeMs = None\<rparr>"

text \<open>
  \<^verbatim>\<open>fetchJobs\<close> returns without touching the list when the API URL or the token is missing,
  when the request fails or answers with a non-success status; otherwise it replaces the
  list by the converted listing.
\<close>

datatype 'a fetch_result =
    NetworkError                \<comment> \<open>the promise of \<^verbatim>\<open>fetch\<close> rejects\<close>
  | Response bool "'a option"   \<comment> \<open>\<^verbatim>\<open>response.ok\<close> and the parsed body; \<open>None\<close>: no usable body\<close>

definition fetchJobs :: "bool \<Rightarrow> listed_job list fetch_result \<Rightarrow> job_list \<Rightarrow> job_list" where
  "fetchJobs configured resp l =
     (if \<not> configured then l
      else (case resp of
              NetworkError \<Rightarrow> l
            | Response ok body \<Rightarrow>
                (if \<not> ok then l
                 else (case body of None \<Rightarrow> l | Some listing \<Rightarrow> setJobs (map fromListing listing) l))))"

section \<open>Schema normalizer: the page result of a job\<close>

text \<open>
  A string state such as \<^verbatim>\<open>processingJobId\<close> or \<^verbatim>\<open>previewUrl\<close> is \<^verbatim>\<open>string | null\<close>; it is
  truthy when it is a non-empty string.
\<close>

fun truthyStr :: "string option \<Rightarrow> bool" where
  "truthyStr None = False"
| "truthyStr (Some s) = (s \<noteq> [])"

text \<open>
  The job \<^verbatim>\<open>getResultData\<close> reads: \<^verbatim>\<open>currentJob\<close> (the job with id \<^verbatim>\<open>currentJobId\<close>), else
  the job with id \<^verbatim>\<open>processingJobId\<close>, else once more the job with id \<^verbatim>\<open>currentJobId\<close>.
\<close>

definition findById :: "string option \<Rightarrow> OcrJob list \<Rightarrow> OcrJob option" where
  "findById i js = (case i of None \<Rightarrow> None | Some k \<Rightarrow> findJob k js)"

definition selectJob :: "OcrJob list \<Rightarrow> string option \<Rightarrow> string option \<Rightarrow> OcrJob option" where
  "selectJob js curId procId =
     (let currentJob = findById curId js;
          job1 = (if currentJob = None \<and> truthyStr procId then findById procId js else currentJob);
          job2 = (if job1 = None \<and> truthyStr curId then findById curId js else job1)
      in job2)"

text \<open>\<^verbatim>\<open>xs[i]\<close> for a number \<open>i\<close> that is an integer: \<^verbatim>\<open>undefined\<close> outside \<open>0..length-1\<close>.\<close>

definition jsIndex :: "'a list \<Rightarrow> int \<Rightarrow> 'a option" where
  "jsIndex xs i = (if 0 \<le> i \<and> i < int (length xs) then Some (xs ! nat i) else None)"

text \<open>
  \<^verbatim>\<open>getResultData\<close>, from the job it selected and \<^verbatim>\<open>currentPdfPage\<close>. The result \<open>Inr None\<close>
  is the \<^verbatim>\<open>null\<close> it returns; \<open>Inl TypeError\<close> is the exception of reading \<^verbatim>\<open>.res\<close> of
  \<^verbatim>\<open>null\<close>.
\<close>

definition getResultData :: "OcrJob option \<Rightarrow> int \<Rightarrow> js_error + json option" where
  "getResultData job currentPdfPage =
     (case job of
        None \<Rightarrow> Inr None
      | Some j \<Rightarrow>
          (case result j of
             None \<Rightarrow> Inr None
           | Some r \<Rightarrow>
               if truthyOpt (res r) then Inr (res r)
               else
                 (let pageIndex = currentPdfPage - 1 in
                  case results r of
                    None \<Rightarrow> Inr None
                  | Some rs \<Rightarrow>
                      if length rs > 0 then
                        (let pageResult =
                               (if truthyOpt (jsIndex rs pageIndex) then jsIndex rs pageIndex
                                else jsIndex rs 0)
                         in case pageResult of
                              None \<Rightarrow> Inl TypeError
                            | Some pr \<Rightarrow>
                                (case getRes pr of
                                   Inl e \<Rightarrow> Inl e
                                 | Inr v \<Rightarrow> if truthyOpt v then Inr v else Inr (Some pr)))
                      else Inr None)))"

text \<open>
  The selected element and its unwrapping for a payload of any content: "the element
  matching the current page index, falling back to the first element", "unwrapped via
  \<^verbatim>\<open>res\<close>", with JavaScript truthiness in place of presence.
\<close>

definition selectedPage :: "json list \<Rightarrow> int \<Rightarrow> json" where
  "selectedPage rs p =
     (if 1 \<le> p \<and> p \<le> int (length rs) \<and> truthy (rs ! nat (p - 1)) then rs ! nat (p - 1)
      else rs ! 0)"

definition unwrapRes :: "json \<Rightarrow> json" where
  "unwrapRes e =
     (case e of
        JObj kvs \<Rightarrow> (case map_of kvs ''res'' of None \<Rightarrow> e | Some v \<Rightarrow> if truthy v then v else e)
      | _ \<Rightarrow> e)"

text \<open>
  The payload at the type the source casts it to: \<^verbatim>\<open>res\<close>, where the key is there, holds an
  object ("Format 1: { res: {...} }"), and every element of \<^verbatim>\<open>results\<close> is an object whose
  own \<^verbatim>\<open>res\<close>, where the key is there, holds an object.
\<close>

fun isObject :: "json \<Rightarrow> bool" where
  "isObject (JObj kvs) = True"
| "isObject v = False"

fun objectOrAbsent :: "json option \<Rightarrow> bool" where
  "objectOrAbsent None = True"
| "objectOrAbsent (Some v) = isObject v"

fun pageObject :: "json \<Rightarrow> bool" where
  "pageObject (JObj kvs) = objectOrAbsent (map_of kvs ''res'')"
| "pageObject v = False"

definition typedPayload :: "result_payload \<Rightarrow> bool" where
  "typedPayload r =
     (objectOrAbsent (res r) \<and>
      (case results r of None \<Rightarrow> True | Some rs \<Rightarrow> list_all pageObject rs))"

text \<open>
  Modelled from the specification: the three shapes tried in order. A top-level \<^verbatim>\<open>res\<close> key
  gives its value; otherwise a non-empty \<^verbatim>\<open>results\<close> array gives, for the current page \<open>p\<close>,
  the element \<open>results[p-1]\<close>, or \<open>results[0]\<close> when the index \<open>p-1\<close> is out of range, unwrapped
  through its \<^verbatim>\<open>res\<close> key when it has one; otherwise there is no result.
\<close>

definition specSelectedPage :: "json list \<Rightarrow> int \<Rightarrow> json" where
  "specSelectedPage rs p = (if 1 \<le> p \<and> p \<le> int (length rs) then rs ! nat (p - 1) else rs ! 0)"

definition specUnwrap :: "json \<Rightarrow> json" where
  "specUnwrap e =
     (case e of
        JObj kvs \<Rightarrow> (case map_of kvs ''res'' of None \<Rightarrow> e | Some v \<Rightarrow> v)
      | _ \<Rightarrow> e)"

definition specResultData :: "result_payload \<Rightarrow> int \<Rightarrow> json option" where
  "specResultData r p =
     (case res r of
        Some v \<Rightarrow> Some v
      | None \<Rightarrow>
          (case results r of
             None \<Rightarrow> None
           | Some rs \<Rightarrow> if rs = [] then None else Some (specUnwrap (specSelectedPage rs p))))"

definition mkJob :: "string \<Rightarrow> job_status \<Rightarrow> result_payload option \<Rightarrow> OcrJob" where
  "mkJob i st r =
     \<lparr>job_id = i, filename = ''scan.pdf'', model = PaddleOcrVl, modelOptions = [],
      status = st, createdAt = 0, s3Key = Some ''uploads/scan.pdf'', imageAvailable = Some True,
      result = r, processingTimeMs = None\<rparr>"

section \<open>Geometry mapper: overlays of the result step\<close>

text \<open>
  Numbers of the payload and of the DOM are JavaScript numbers; the model computes with
  reals. The overlay formulas are products and quotients of them, guarded against a zero
  divisor by the source itself.
\<close>

type_synonym bbox = "real \<times> real \<times> real \<times> real"

record OcrBlock =
  block_label :: string
  block_content :: string
  block_bbox :: bbox
  block_id :: int
  block_order :: "int option"
  group_id :: int

text \<open>
  The page result as \<^verbatim>\<open>renderResultStep\<close> reads it after its casts: \<^verbatim>\<open>rec_texts\<close> and
  \<^verbatim>\<open>parsing_res_list\<close> are \<open>Some\<close> when the key is present and holds an array (the two type
  guards \<^verbatim>\<open>isOcrV5Result\<close> and \<^verbatim>\<open>isStructureResult\<close>); \<^verbatim>\<open>width\<close> and \<^verbatim>\<open>height\<close> are \<open>None\<close>
  when the payload does not report them.
\<close>

record OcrResultData =
  rec_texts :: "string list option"
  rec_boxes :: "real list list"
  rec_scores :: "real list"
  parsing_res_list :: "OcrBlock list option"
  width :: "real option"
  height :: "real option"

definition isOcrV5Result :: "OcrResultData \<Rightarrow> bool" where
  "isOcrV5Result d = (rec_texts d \<noteq> None)"

definition isStructureResult :: "OcrResultData \<Rightarrow> bool" where
  "isStructureResult d = (parsing_res_list d \<noteq> None)"

definition blocksOf :: "OcrResultData \<Rightarrow> OcrBlock list" where
  "blocksOf d = (case parsing_res_list d of None \<Rightarrow> [] | Some bs \<Rightarrow> bs)"

record image_el =
  clientWidth :: real
  clientHeight :: real
  naturalWidth :: real
  naturalHeight :: real

record image_view =
  previewUrl :: "string option"
  loadedImageUrl :: "string option"
  showBbox :: bool
  resultImageRef :: "image_el option"

text \<open>One absolutely positioned \<^verbatim>\<open>div.block-overlay\<close>: its React key and its style.\<close>

record overlay =
  ov_key :: nat
  ov_left :: real
  ov_top :: real
  ov_width :: real
  ov_height :: real

text \<open>The callback of \<^verbatim>\<open>blocks.map\<close> for the structured shape; \<open>None\<close> is its \<^verbatim>\<open>return null\<close>.\<close>

definition structureOverlay :: "image_el \<Rightarrow> OcrResultData \<Rightarrow> nat \<Rightarrow> OcrBlock \<Rightarrow> overlay option" where
  "structureOverlay imageEl structData idx block =
     (case block_bbox block of
        (x1, y1, x2, y2) \<Rightarrow>
          (case (width structData, height structData) of
             (Some w, Some h) \<Rightarrow>
               if w = 0 \<or> h = 0 then None
               else
                 (let scaleX = clientWidth imageEl / w;
                      scaleY = clientHeight imageEl / h
                  in Some \<lparr>ov_key = idx, ov_left = x1 * scaleX, ov_top = y1 * scaleY,
                            ov_width = (x2 - x1) * scaleX, ov_height = (y2 - y1) * scaleY\<rparr>)
           | _ \<Rightarrow> None))"

text \<open>
  The callback of \<^verbatim>\<open>v5Data.rec_texts.map\<close> for the flat-recognition shape. The helper
  \<^verbatim>\<open>getV5Bbox\<close> is imported from the types module, whose exporting version is not among the
  sources; it is a parameter of the model.
\<close>

definition v5Overlay ::
  "(OcrResultData \<Rightarrow> nat \<Rightarrow> bbox) \<Rightarrow> image_el \<Rightarrow> OcrResultData \<Rightarrow> nat \<Rightarrow> overlay option" where
  "v5Overlay getV5Bbox imageEl v5Data idx =
     (case getV5Bbox v5Data idx of
        (x1, y1, x2, y2) \<Rightarrow>
          if x1 = 0 \<and> y1 = 0 \<and> x2 = 0 \<and> y2 = 0 then None
          else if naturalWidth imageEl = 0 \<or> naturalHeight imageEl = 0 then None
          else
            (let scaleX = clientWidth imageEl / naturalWidth imageEl;
                 scaleY = clientHeight imageEl / naturalHeight imageEl
             in Some \<lparr>ov_key = idx, ov_left = x1 * scaleX, ov_top = y1 * scaleY,
                       ov_width = (x2 - x1) * scaleX, ov_height = (y2 - y1) * scaleY\<rparr>))"

text \<open>
  The two overlay expressions of the JSX, each behind its chain of \<^verbatim>\<open>&&\<close>: a preview URL,
  the overlay toggle, the load flag of exactly this URL, the shape, and a mounted image
  element.
\<close>

definition imageReady :: "image_view \<Rightarrow> bool" where
  "imageReady v = (truthyStr (previewUrl v) \<and> showBbox v \<and> loadedImageUrl v = previewUrl v)"

definition structureOverlays :: "image_view \<Rightarrow> OcrResultData \<Rightarrow> overlay option list" where
  "structureOverlays v d =
     (if imageReady v \<and> \<not> isOcrV5Result d then
        (case resultImageRef v of
           None \<Rightarrow> []
         | Some imageEl \<Rightarrow> map (\<lambda>(idx, block). structureOverlay imageEl d idx block)
                            (enumerate 0 (blocksOf d)))
      else [])"

definition v5Overlays ::
  "(OcrResultData \<Rightarrow> nat \<Rightarrow> bbox) \<Rightarrow> image_view \<Rightarrow> OcrResultData \<Rightarrow> overlay option list" where
  "v5Overlays getV5Bbox v d =
     (if imageReady v \<and> isOcrV5Result d then
        (case (rec_texts d, resultImageRef v) of
           (Some texts, Some imageEl) \<Rightarrow> map (v5Overlay getV5Bbox imageEl d) [0..<length texts]
         | _ \<Rightarrow> [])
      else [])"

text \<open>React renders nothing for a \<^verbatim>\<open>null\<close> entry: the overlays on screen.\<close>

fun rendered :: "overlay option list \<Rightarrow> overlay list" where
  "rendered [] = []"
| "rendered (None # os) = rendered os"
| "rendered (Some ov # os) = ov # rendered os"

text \<open>
  Modelled from the spec: \<^verbatim>\<open>getV5Bbox\<close> (exported by the types module, absent from the
  sources) for the examples, as the data model describes the flat shape: the box of text
  \<open>idx\<close> is the entry \<open>idx\<close> of \<^verbatim>\<open>rec_boxes\<close>, \<open>[x1, y1, x2, y2]\<close>, and all zeros when there
  is no such entry.
\<close>

definition recBoxAt :: "OcrResultData \<Rightarrow> nat \<Rightarrow> bbox" where
  "recBoxAt d idx =
     (if idx < length (rec_boxes d) then
        (case rec_boxes d ! idx of
           [x1, y1, x2, y2] \<Rightarrow> (x1, y1, x2, y2)
         | _ \<Rightarrow> (0, 0, 0, 0))
      else (0, 0, 0, 0))"

section \<open>Blocks view: redistribution of multi-line content within a group\<close>

text \<open>
  Strings are lists of 8-bit characters. \<^verbatim>\<open>String.prototype.trim\<close> strips white space and
  line terminators from both ends; among the code units below 256 these are tab, line feed,
  vertical tab, form feed, carriage return, space and no-break space.
\<close>

definition isWhiteSpace :: "char \<Rightarrow> bool" where
  "isWhiteSpace c =
     (c \<in> set [CHR 0x09, CHR 0x0A, CHR 0x0B, CHR 0x0C, CHR 0x0D, CHR 0x20, CHR 0xA0])"

definition trim :: "string \<Rightarrow> string" where
  "trim s = rev (dropWhile isWhiteSpace (rev (dropWhile isWhiteSpace s)))"

text \<open>\<^verbatim>\<open>s.split(c)\<close> for a one-character separator: at least one piece, also for \<^verbatim>\<open>''\<close>.\<close>

fun splitOn :: "char \<Rightarrow> string \<Rightarrow> string list" where
  "splitOn c [] = [[]]"
| "splitOn c (x # xs) =
     (if x = c then [] # splitOn c xs
      else (case splitOn c xs of
              [] \<Rightarrow> [[x]]
            | l # ls \<Rightarrow> (x # l) # ls))"

text \<open>\<^verbatim>\<open>block_content && block_content.trim() !== ''\<close>\<close>

definition hasContent :: "string \<Rightarrow> bool" where
  "hasContent s = (s \<noteq> [] \<and> trim s \<noteq> [])"

text \<open>\<^verbatim>\<open>block_content.split('\n').filter((l) => l.trim())\<close>\<close>

definition contentLines :: "string \<Rightarrow> string list" where
  "contentLines s = filter (\<lambda>l. trim l \<noteq> []) (splitOn (CHR 0x0A) s)"

text \<open>
  \<^verbatim>\<open>groupMap\<close>: a \<^verbatim>\<open>Map\<close> from group id to the indices of its blocks. A \<^verbatim>\<open>Map\<close> iterates in
  insertion order of its keys, so it is an association list that appends new keys.
\<close>

fun groupMapAdd :: "(int \<times> nat list) list \<Rightarrow> int \<Rightarrow> nat \<Rightarrow> (int \<times> nat list) list" where
  "groupMapAdd [] g idx = [(g, [idx])]"
| "groupMapAdd ((k, is) # m) g idx =
     (if k = g then (k, is @ [idx]) # m else (k, is) # groupMapAdd m g idx)"

definition groupMap :: "OcrBlock list \<Rightarrow> (int \<times> nat list) list" where
  "groupMap blocks =
     foldl (\<lambda>m (idx, block). groupMapAdd m (group_id block) idx) [] (enumerate 0 blocks)"

text \<open>
  \<^verbatim>\<open>lines.slice(1).forEach((line, i) => { if (i < emptyIndices.length) ... })\<close>: line \<open>i\<close> goes
  to the block at \<open>emptyIndices[i]\<close>; surplus lines and surplus indices are left alone.
\<close>

fun assignLines :: "string list \<Rightarrow> nat list \<Rightarrow> OcrBlock list \<Rightarrow> OcrBlock list" where
  "assignLines (line # ls) (e # es) bs =
     assignLines ls es (bs[e := (bs ! e)\<lparr>block_content := line\<rparr>])"
| "assignLines ls es bs = bs"

text \<open>The body of \<^verbatim>\<open>groupMap.forEach((indices) => ...)\<close> on the working copy.\<close>

definition distributeGroup :: "nat list \<Rightarrow> OcrBlock list \<Rightarrow> OcrBlock list" where
  "distributeGroup indices processedBlocks =
     (if length indices \<le> 1 then processedBlocks
      else
        (case List.find (\<lambda>idx. hasContent (block_content (processedBlocks ! idx))) indices of
           None \<Rightarrow> processedBlocks
         | Some blockWithContent \<Rightarrow>
             (let contentBlock = processedBlocks ! blockWithContent in
              case contentLines (block_content contentBlock) of
                line0 # line1 # rest \<Rightarrow>
                  (let emptyIndices =
                         filter (\<lambda>idx. idx \<noteq> blockWithContent \<and>
                                       \<not> hasContent (block_content (processedBlocks ! idx))) indices
                   in if length emptyIndices > 0 then
                        assignLines (line1 # rest) emptyIndices
                          (processedBlocks[blockWithContent := contentBlock\<lparr>block_content := line0\<rparr>])
                      else processedBlocks)
              | _ \<Rightarrow> processedBlocks)))"

definition processBlocks :: "OcrBlock list \<Rightarrow> OcrBlock list" where
  "processBlocks blocks =
     foldl (\<lambda>processed (g, indices). distributeGroup indices processed) blocks (groupMap blocks)"

text \<open>The indices of the blocks of one group, in document order, and the loop over the groups.\<close>

definition groupIndices :: "int \<Rightarrow> OcrBlock list \<Rightarrow> nat list" where
  "groupIndices g bs = filter (\<lambda>i. group_id (bs ! i) = g) [0..<length bs]"

definition distributeAll :: "(int \<times> nat list) list \<Rightarrow> OcrBlock list \<Rightarrow> OcrBlock list" where
  "distributeAll gs pb = foldl (\<lambda>processed (g, indices). distributeGroup indices processed) pb gs"

definition visualBlockTypes :: "string list" where
  "visualBlockTypes = [''image'', ''picture'', ''figure'', ''chart'', ''seal'', ''stamp'']"

definition filteredBlocks :: "OcrBlock list \<Rightarrow> OcrBlock list" where
  "filteredBlocks blocks =
     filter (\<lambda>block. hasContent (block_content block) \<or> block_label block \<in> set visualBlockTypes)
       (processBlocks blocks)"

definition textBlock :: "int \<Rightarrow> int \<Rightarrow> string \<Rightarrow> OcrBlock" where
  "textBlock i g c =
     \<lparr>block_label = ''text'', block_content = c, block_bbox = (0, 0, 10, 10), block_id = i,
      block_order = None, group_id = g\<rparr>"

section \<open>The OCR page: state, file selection, submission\<close>

datatype Step = StepUpload | StepOptions | StepResult

record image_data =
  img_base64 :: "string option"   \<comment> \<open>\<open>None\<close>: the data URL had no comma, so \<^verbatim>\<open>split(',')[1]\<close> is undefined\<close>
  img_filename :: string

text \<open>
  What the page does to the outside world, in order: alerts, and the HTTP requests of
  submission and of job status.
\<close>

datatype effect =
    Alert string
  | AlertFileTooLarge nat
  | HttpPost string
  | HttpPut string
  | HttpGet string

text \<open>
  The \<^verbatim>\<open>useState\<close> and \<^verbatim>\<open>useRef\<close> cells of \<^verbatim>\<open>OcrPage\<close> that the modelled handlers touch, with
  the job list of the layout context. The browser's table of pending timeouts, its next
  timer handle, the status requests of \<^verbatim>\<open>pollJobStatus\<close> that await a response and the log of effects are part
  of the state, so that scheduling is observable.
\<close>

record page_state = image_view +
  jobList :: job_list
  step :: Step
  imageData :: "image_data option"
  currentPdfPage :: int
  totalPdfPages :: int
  pdfArrayBufferRef :: "nat list option"
  selectedModel :: OcrModel
  selectedOptions :: "(string \<times> json) list"
  isProcessing :: bool
  processingJobId :: "string option"
  jobStartTimeRef :: "int option"
  pollTimeoutRef :: "nat option"
  timers :: "(nat \<times> string \<times> nat) list"   \<comment> \<open>handle, job id polled when it fires, delay in ms\<close>
  nextTimer :: nat
  inflight :: "string list"
  effects :: "effect list"

definition emit :: "effect \<Rightarrow> page_state \<Rightarrow> page_state" where
  "emit e st = st\<lparr>effects := effects st @ [e]\<rparr>"

text \<open>\<^verbatim>\<open>runtimeConfig.apiUrl || runtimeConfig.apis?.ocr\<close>\<close>

record page_config =
  apiUrl :: "string option"
  apis_ocr :: "string option"

definition resolvedApiUrl :: "page_config \<Rightarrow> string option" where
  "resolvedApiUrl cfg = (if truthyStr (apiUrl cfg) then apiUrl cfg else apis_ocr cfg)"

subsection \<open>File selection\<close>

definition MAX_FILE_SIZE :: nat where
  "MAX_FILE_SIZE = 100 * 1024 * 1024"

record selected_file =
  f_name :: string
  f_size :: nat
  f_type :: string

text \<open>
  The outcomes of the browser operations \<^verbatim>\<open>handleFileSelect\<close> awaits: \<^verbatim>\<open>file.arrayBuffer()\<close>
  (\<open>None\<close>: it rejects), \<^verbatim>\<open>btoa\<close> of the bytes, pdf.js for the preview of page 1, and the
  data URL of \<^verbatim>\<open>FileReader.readAsDataURL\<close> (\<open>None\<close>: \<^verbatim>\<open>onload\<close> never fires).
\<close>

record file_env =
  arrayBuffer :: "nat list option"
  btoa :: "nat list \<Rightarrow> string"
  pdf :: pdf_env
  readAsDataURL :: "string option"

definition handleFileSelect :: "file_env \<Rightarrow> selected_file \<Rightarrow> page_state \<Rightarrow> page_state" where
  "handleFileSelect env f st =
     (if f_size f > MAX_FILE_SIZE then emit (AlertFileTooLarge (f_size f)) st
      else if f_type f = ''application/pdf'' then
        (case arrayBuffer env of
           None \<Rightarrow> emit (Alert ''Failed to process PDF file'') st
         | Some bytes \<Rightarrow>
             (let st1 = st\<lparr>pdfArrayBufferRef := Some bytes\<rparr>;
                  img = fst (renderPdfToImage (pdf env) 1)
              in if \<not> truthyStr (dataUrl img)
                 then emit (Alert ''Failed to render PDF preview'') st1
                 else st1\<lparr>totalPdfPages := totalPages img, currentPdfPage := 1,
                         imageData := Some \<lparr>img_base64 = Some (btoa env bytes),
                                             img_filename = f_name f\<rparr>,
                         previewUrl := dataUrl img, step := StepOptions\<rparr>))
      else
        (case readAsDataURL env of
           None \<Rightarrow> st
         | Some url \<Rightarrow>
             st\<lparr>imageData := Some \<lparr>img_base64 = jsIndex (splitOn (CHR 0x2C) url) 1,
                                   img_filename = f_name f\<rparr>,
                previewUrl := Some url, step := StepOptions\<rparr>))"

subsection \<open>Polling one job\<close>

text \<open>
  \<^verbatim>\<open>pollJobStatus(jobId)\<close> is an async function: it returns at once when no API URL is
  configured, otherwise it issues \<^verbatim>\<open>GET /ocr/{jobId}\<close> and continues when the response
  settles. The model splits it there: \<open>pollJobStatus_call\<close> issues the request,
  \<open>pollJobStatus_settle\<close> is the rest of the body for one outcome of the request.
\<close>

record poll_data =
  p_status :: string
  p_result :: "result_payload option"
  p_error :: "string option"

text \<open>\<^verbatim>\<open>pollTimeoutRef.current = setTimeout(() => pollJobStatus(jobId), delay)\<close>\<close>

definition setTimeoutPoll :: "string \<Rightarrow> nat \<Rightarrow> page_state \<Rightarrow> page_state" where
  "setTimeoutPoll jobId delay st =
     st\<lparr>timers := timers st @ [(nextTimer st, jobId, delay)],
        pollTimeoutRef := Some (nextTimer st),
        nextTimer := Suc (nextTimer st)\<rparr>"

definition pollJobStatus_call :: "page_config \<Rightarrow> string \<Rightarrow> page_state \<Rightarrow> page_state" where
  "pollJobStatus_call cfg jobId st =
     (if \<not> truthyStr (resolvedApiUrl cfg) then st
      else emit (HttpGet (''/ocr/'' @ jobId)) (st\<lparr>inflight := inflight st @ [jobId]\<rparr>))"

definition elapsed :: "int option \<Rightarrow> int \<Rightarrow> int option" where
  "elapsed start now = (case start of None \<Rightarrow> None | Some t \<Rightarrow> if t = 0 then None else Some (now - t))"

definition pollJobStatus_settle ::
  "poll_data fetch_result \<Rightarrow> int \<Rightarrow> string \<Rightarrow> page_state \<Rightarrow> page_state" where
  "pollJobStatus_settle resp now jobId st =
     (case resp of
        NetworkError \<Rightarrow> setTimeoutPoll jobId 5000 st
      | Response ok body \<Rightarrow>
          (if \<not> ok then setTimeoutPoll jobId 5000 st
           else
             (case body of
                None \<Rightarrow> setTimeoutPoll jobId 5000 st
              | Some data \<Rightarrow>
                  if p_status data = ''completed'' then
                    st\<lparr>jobList :=
                         updateJob jobId
                           (noUpdates\<lparr>u_status := Some Completed, u_result := Some (p_result data),
                              u_processingTimeMs := Some (elapsed (jobStartTimeRef st) now)\<rparr>)
                           (jobList st),
                       jobStartTimeRef := None, isProcessing := False, processingJobId := None,
                       step := StepResult\<rparr>
                  else if p_status data = ''failed'' then
                    emit (Alert (case p_error data of
                                   None \<Rightarrow> ''Processing failed''
                                 | Some e \<Rightarrow> if e = [] then ''Processing failed'' else e))
                      (st\<lparr>jobList := updateJob jobId (noUpdates\<lparr>u_status := Some Failed\<rparr>) (jobList st),
                          jobStartTimeRef := None, isProcessing := False, processingJobId := None\<rparr>)
                  else setTimeoutPoll jobId 3000 st)))"

text \<open>
  The events of the poll loop: a call of \<^verbatim>\<open>pollJobStatus\<close>, the settling of a pending
  status request, a timeout that fires, and the unmount cleanup
  \<^verbatim>\<open>clearTimeout(pollTimeoutRef.current)\<close>.
\<close>

datatype poll_event =
    Poll string
  | Settle string "poll_data fetch_result" int
  | Fire nat
  | Unmount

definition clearTimeout :: "nat \<Rightarrow> page_state \<Rightarrow> page_state" where
  "clearTimeout h st = st\<lparr>timers := filter (\<lambda>t. fst t \<noteq> h) (timers st)\<rparr>"

fun pollStep :: "page_config \<Rightarrow> page_state \<Rightarrow> poll_event \<Rightarrow> page_state" where
  "pollStep cfg st (Poll jobId) = pollJobStatus_call cfg jobId st"
| "pollStep cfg st (Settle jobId resp now) =
     (if jobId \<in> set (inflight st)
      then pollJobStatus_settle resp now jobId (st\<lparr>inflight := remove1 jobId (inflight st)\<rparr>)
      else st)"
| "pollStep cfg st (Fire h) =
     (case List.find (\<lambda>t. fst t = h) (timers st) of
        None \<Rightarrow> st
      | Some (h', jobId, delay) \<Rightarrow> pollJobStatus_call cfg jobId (clearTimeout h st))"
| "pollStep cfg st Unmount =
     (case pollTimeoutRef st of
        None \<Rightarrow> st
      | Some h \<Rightarrow> if h = 0 then st else (clearTimeout h st)\<lparr>pollTimeoutRef := None\<rparr>)"

definition pollRun :: "page_config \<Rightarrow> page_state \<Rightarrow> poll_event list \<Rightarrow> page_state" where
  "pollRun cfg st evs = foldl (pollStep cfg) st evs"

text \<open>The pending timeouts that will poll a given job.\<close>

definition timersFor :: "string \<Rightarrow> page_state \<Rightarrow> (nat \<times> string \<times> nat) list" where
  "timersFor jobId st = filter (\<lambda>t. fst (snd t) = jobId) (timers st)"

text \<open>
  The three kinds of outcome of a status request: a terminal status, a transient error
  (the request rejects, the HTTP status is not a success, or the body cannot be read), and
  any other status.
\<close>

definition isTerminal :: "poll_data fetch_result \<Rightarrow> bool" where
  "isTerminal resp =
     (case resp of
        NetworkError \<Rightarrow> False
      | Response ok body \<Rightarrow>
          (case body of
             None \<Rightarrow> False
           | Some data \<Rightarrow> ok \<and> (p_status data = ''completed'' \<or> p_status data = ''failed'')))"

definition isTransientError :: "poll_data fetch_result \<Rightarrow> bool" where
  "isTransientError resp =
     (case resp of NetworkError \<Rightarrow> True | Response ok body \<Rightarrow> \<not> ok \<or> body = None)"

definition isStillProcessing :: "poll_data fetch_result \<Rightarrow> bool" where
  "isStillProcessing resp =
     (case resp of
        NetworkError \<Rightarrow> False
      | Response ok body \<Rightarrow>
          (case body of
             None \<Rightarrow> False
           | Some data \<Rightarrow> ok \<and> p_status data \<noteq> ''completed'' \<and> p_status data \<noteq> ''failed''))"

text \<open>Nothing of a job is pending: no status request in flight, no timeout that will poll it.\<close>

definition quietFor :: "string \<Rightarrow> page_state \<Rightarrow> bool" where
  "quietFor jobId st = (jobId \<notin> set (inflight st) \<and> timersFor jobId st = [])"

text \<open>Timer handles are handed out in increasing order and never reused.\<close>

definition handlesFresh :: "page_state \<Rightarrow> bool" where
  "handlesFresh st = list_all (\<lambda>t. fst t < nextTimer st) (timers st)"

subsection \<open>Submission\<close>

text \<open>The decimal digits of a number, for the client-side id \<^verbatim>\<open>`job-${Date.now()}`\<close>.\<close>

fun showNat :: "nat \<Rightarrow> string" where
  "showNat n =
     (if n < 10 then [''0123456789'' ! n]
      else showNat (n div 10) @ [''0123456789'' ! (n mod 10)])"

declare showNat.simps [simp del]

definition localJobId :: "nat \<Rightarrow> string" where
  "localJobId now = ''job-'' @ showNat now"

text \<open>
  The outcomes \<^verbatim>\<open>handleSubmit\<close> awaits or reads: three readings of the clock, the response
  of \<^verbatim>\<open>POST /upload\<close> with its body \<^verbatim>\<open>{ upload_url, s3_key }\<close>, \<^verbatim>\<open>atob\<close> of the stored
  base64 text (\<open>None\<close>: it throws), the response of the \<^verbatim>\<open>PUT\<close> to the signed URL, and the
  response of \<^verbatim>\<open>POST /ocr\<close> with the \<^verbatim>\<open>job_id\<close> of its body.
\<close>

record upload_data =
  upload_url :: string
  s3_key :: string

record submit_env =
  now_start :: int
  now_id :: nat
  now_created :: int
  uploadResponse :: "upload_data fetch_result"
  atob :: "string option \<Rightarrow> nat list option"
  s3UploadResponse :: "unit fetch_result"
  ocrResponse :: "string fetch_result"

text \<open>
  The \<^verbatim>\<open>catch\<close> block: \<^verbatim>\<open>updateJob(jobId, { status: 'failed' })\<close> under the comment
  "If job was added, mark as failed", the processing flag cleared, an alert.
\<close>

definition submitFailed :: "string \<Rightarrow> page_state \<Rightarrow> page_state" where
  "submitFailed jobId st =
     emit (Alert ''Failed to submit OCR request. Please try again.'')
       (st\<lparr>jobList := updateJob jobId (noUpdates\<lparr>u_status := Some Failed\<rparr>) (jobList st),
           isProcessing := False\<rparr>)"

definition newJob :: "submit_env \<Rightarrow> string \<Rightarrow> image_data \<Rightarrow> upload_data \<Rightarrow> page_state \<Rightarrow> OcrJob" where
  "newJob env jobId img uploadData st =
     \<lparr>job_id = jobId, filename = img_filename img, model = selectedModel st,
      modelOptions = selectedOptions st, status = Processing, createdAt = now_created env,
      s3Key = Some (s3_key uploadData), imageAvailable = Some True, result = None,
      processingTimeMs = None\<rparr>"

text \<open>After the upload succeeded: the job is added, the OCR request is sent.\<close>

definition submitRequest ::
  "page_config \<Rightarrow> submit_env \<Rightarrow> string \<Rightarrow> image_data \<Rightarrow> upload_data \<Rightarrow> page_state \<Rightarrow> page_state" where
  "submitRequest cfg env jobId img uploadData st =
     (let st1 = st\<lparr>jobList := addJob (newJob env jobId img uploadData st) (jobList st)\<rparr>;
          st2 = emit (HttpPost ''/ocr'') st1
      in case ocrResponse env of
           NetworkError \<Rightarrow> submitFailed jobId st2
         | Response ok body \<Rightarrow>
             (if \<not> ok then submitFailed jobId st2
              else
                (case body of
                   None \<Rightarrow> submitFailed jobId st2
                 | Some backendJobId \<Rightarrow>
                     pollJobStatus_call cfg backendJobId
                       (st2\<lparr>jobList :=
                              updateJob backendJobId (noUpdates\<lparr>u_s3Key := Some (s3_key uploadData)\<rparr>)
                                (replaceJobId jobId backendJobId (jobList st2)),
                            processingJobId := Some backendJobId\<rparr>))))"

text \<open>After the upload URL arrived: the bytes are decoded and written to the object store.\<close>

definition submitUpload ::
  "page_config \<Rightarrow> submit_env \<Rightarrow> string \<Rightarrow> image_data \<Rightarrow> upload_data \<Rightarrow> page_state \<Rightarrow> page_state" where
  "submitUpload cfg env jobId img uploadData st =
     (case atob env (img_base64 img) of
        None \<Rightarrow> submitFailed jobId st
      | Some bytes \<Rightarrow>
          (let st1 = emit (HttpPut (upload_url uploadData)) st
           in case s3UploadResponse env of
                NetworkError \<Rightarrow> submitFailed jobId st1
              | Response ok body \<Rightarrow>
                  if \<not> ok then submitFailed jobId st1
                  else submitRequest cfg env jobId img uploadData st1))"

definition handleSubmit :: "page_config \<Rightarrow> submit_env \<Rightarrow> page_state \<Rightarrow> page_state" where
  "handleSubmit cfg env st =
     (case imageData st of
        None \<Rightarrow> st
      | Some img \<Rightarrow>
          (let st0 = st\<lparr>isProcessing := True, jobStartTimeRef := Some (now_start env)\<rparr>;
               jobId = localJobId (now_id env)
           in if \<not> truthyStr (resolvedApiUrl cfg) then submitFailed jobId st0
              else
                (let st1 = emit (HttpPost ''/upload'') st0
                 in case uploadResponse env of
                      NetworkError \<Rightarrow> submitFailed jobId st1
                    | Response ok body \<Rightarrow>
                        (if \<not> ok then submitFailed jobId st1
                         else
                           (case body of
                              None \<Rightarrow> submitFailed jobId st1
                            | Some uploadData \<Rightarrow> submitUpload cfg env jobId img uploadData st1)))))"

text \<open>The page as it is mounted, with a given job list.\<close>

definition initialPage :: "OcrJob list \<Rightarrow> page_state" where
  "initialPage js =
     \<lparr>previewUrl = None, loadedImageUrl = None, showBbox = True, resultImageRef = None,
      jobList = \<lparr>jobs = js, currentJobId = None\<rparr>, step = StepUpload, imageData = None,
      currentPdfPage = 1, totalPdfPages = 1, pdfArrayBufferRef = None,
      selectedModel = PaddleOcrVl, selectedOptions = [],
      isProcessing = False, processingJobId = None, jobStartTimeRef = None,
      pollTimeoutRef = None, timers = [], nextTimer = 1, inflight = [], effects = []\<rparr>"

definition someConfig :: page_config where
  "someConfig = \<lparr>apiUrl = Some ''https://api.example/prod'', apis_ocr = None\<rparr>"

subsection \<open>The page's own events\<close>

text \<open>
  \<^verbatim>\<open>fetchJobResult(jobId)\<close> returns \<^verbatim>\<open>null\<close> at once when the API URL or the token is missing;
  otherwise it issues \<^verbatim>\<open>GET /ocr/{jobId}\<close>, the request of the poll loop, once. It resolves to
  \<^verbatim>\<open>data.result\<close> when the response is a success whose body reports the status completed with
  a truthy result, and to \<^verbatim>\<open>null\<close> in every other case. It schedules nothing.
\<close>

definition fetchJobResult :: "poll_data fetch_result \<Rightarrow> result_payload option" where
  "fetchJobResult resp =
     (case resp of
        NetworkError \<Rightarrow> None
      | Response ok body \<Rightarrow>
          (if \<not> ok then None
           else (case body of
                   None \<Rightarrow> None
                 | Some data \<Rightarrow> if p_status data = ''completed'' then p_result data else None)))"

text \<open>
  The page with what is around it: whether it is mounted, and the requests of
  \<^verbatim>\<open>fetchJobResult\<close> that await their response, by job id.
\<close>

record ui_state =
  page :: page_state
  mounted :: bool
  resultFetches :: "string list"

text \<open>\<^verbatim>\<open>const currentJob = jobs.find((j) => j.id === currentJobId)\<close>\<close>

definition currentJob :: "page_state \<Rightarrow> OcrJob option" where
  "currentJob st = findById (currentJobId (jobList st)) (jobs (jobList st))"

text \<open>
  The effect that watches the current job runs after a render in which one of
  \<^verbatim>\<open>currentJobId\<close>, \<^verbatim>\<open>currentJob?.s3Key\<close>, \<^verbatim>\<open>currentJob?.status\<close>, \<^verbatim>\<open>currentJob?.result\<close> has
  changed (the functions among its dependencies stay the same while the configuration and
  the token do). Its second part is modelled: under
  \<^verbatim>\<open>!currentJob.result && currentJob.status === 'completed'\<close> it calls \<^verbatim>\<open>fetchJobResult\<close> and,
  when that resolves to a result, stores it with \<^verbatim>\<open>updateJob\<close> and shows the result step;
  under a result that is there it shows the result step. Its first part, an async closure
  of its own that loads the stored image of the job, requests \<^verbatim>\<open>GET /image/...\<close> and writes
  the preview cells and the \<^verbatim>\<open>imageAvailable\<close> flag of the job; it calls neither
  \<^verbatim>\<open>pollJobStatus\<close> nor \<^verbatim>\<open>fetchJobResult\<close>, sets no timeout and is not part of the model, and
  the log of effects holds no request for an image or for the job listing.
\<close>

definition currentJobDeps ::
  "page_state \<Rightarrow> string option \<times> (string option \<times> job_status \<times> result_payload option) option" where
  "currentJobDeps st =
     (currentJobId (jobList st), map_option (\<lambda>j. (s3Key j, status j, result j)) (currentJob st))"

definition fetchJobResult_call :: "page_config \<Rightarrow> string option \<Rightarrow> string \<Rightarrow> ui_state \<Rightarrow> ui_state" where
  "fetchJobResult_call cfg idToken jobId u =
     (if \<not> truthyStr (resolvedApiUrl cfg) \<or> \<not> truthyStr idToken then u
      else u\<lparr>page := emit (HttpGet (''/ocr/'' @ jobId)) (page u),
             resultFetches := resultFetches u @ [jobId]\<rparr>)"

text \<open>\<^verbatim>\<open>if (result) { updateJob(currentJob.id, { result }); setStep('result'); }\<close>\<close>

definition fetchJobResult_settle :: "string \<Rightarrow> poll_data fetch_result \<Rightarrow> page_state \<Rightarrow> page_state" where
  "fetchJobResult_settle jobId resp st =
     (case fetchJobResult resp of
        None \<Rightarrow> st
      | Some r \<Rightarrow>
          st\<lparr>jobList := updateJob jobId (noUpdates\<lparr>u_result := Some (Some r)\<rparr>) (jobList st),
             step := StepResult\<rparr>)"

definition currentJobEffect :: "page_config \<Rightarrow> string option \<Rightarrow> ui_state \<Rightarrow> ui_state" where
  "currentJobEffect cfg idToken u =
     (case currentJob (page u) of
        None \<Rightarrow> u
      | Some job \<Rightarrow>
          if result job = None \<and> status job = Completed
          then fetchJobResult_call cfg idToken (job_id job) u
          else if result job \<noteq> None then u\<lparr>page := (page u)\<lparr>step := StepResult\<rparr>\<rparr>
          else u)"

text \<open>
  What drives the page: a click on the submit button (\<^verbatim>\<open>disabled={isProcessing}\<close>, so the
  click reaches \<^verbatim>\<open>handleSubmit\<close> only while nothing is being processed), the selection of a
  file, a click on a job of the history that has a storage key and is not marked as
  missing its image (\<^verbatim>\<open>isAccessible && setCurrentJobId(job.id)\<close>), the job listing that
  arrives for \<^verbatim>\<open>fetchJobs\<close>, the response to a request of \<^verbatim>\<open>fetchJobResult\<close>, the three
  asynchronous events of the poll loop. \<^verbatim>\<open>pollJobStatus\<close> is not among them: the page calls
  it only from \<^verbatim>\<open>handleSubmit\<close> and from its own timeouts. \<^verbatim>\<open>handleSubmit\<close> is taken as one
  step, from the click to the first status request. After the unmount the buttons are
  gone and no effect runs, while the callbacks that are pending still do. The other
  handlers of the page and of the layout (new document, retry, deletion from the history,
  page navigation, editing) call neither \<^verbatim>\<open>pollJobStatus\<close> nor \<^verbatim>\<open>fetchJobResult\<close> and write
  neither the processing flag nor a timeout; they are not among the events.
\<close>

datatype ui_event =
    ClickSubmit submit_env
  | SelectFile file_env selected_file
  | ViewJob string
  | JobsListed "listed_job list fetch_result"
  | ResultFetched string "poll_data fetch_result"
  | Settled string "poll_data fetch_result" int
  | TimerFires nat
  | Unmounted

fun uiEvent :: "page_config \<Rightarrow> string option \<Rightarrow> ui_state \<Rightarrow> ui_event \<Rightarrow> ui_state" where
  "uiEvent cfg idToken u (ClickSubmit env) =
     (if mounted u \<and> \<not> isProcessing (page u) then u\<lparr>page := handleSubmit cfg env (page u)\<rparr> else u)"
| "uiEvent cfg idToken u (SelectFile env f) =
     (if mounted u then u\<lparr>page := handleFileSelect env f (page u)\<rparr> else u)"
| "uiEvent cfg idToken u (ViewJob i) =
     (if list_ex (\<lambda>j. job_id j = i \<and> truthyStr (s3Key j) \<and> imageAvailable j \<noteq> Some False)
           (jobs (jobList (page u)))
      then u\<lparr>page := (page u)\<lparr>jobList := (jobList (page u))\<lparr>currentJobId := Some i\<rparr>\<rparr>\<rparr>
      else u)"
| "uiEvent cfg idToken u (JobsListed resp) =
     u\<lparr>page := (page u)\<lparr>jobList :=
          fetchJobs (truthyStr (resolvedApiUrl cfg) \<and> truthyStr idToken) resp (jobList (page u))\<rparr>\<rparr>"
| "uiEvent cfg idToken u (ResultFetched jobId resp) =
     (if jobId \<in> set (resultFetches u)
      then u\<lparr>page := fetchJobResult_settle jobId resp (page u),
             resultFetches := remove1 jobId (resultFetches u)\<rparr>
      else u)"
| "uiEvent cfg idToken u (Settled jobId resp now) = u\<lparr>page := pollStep cfg (page u) (Settle jobId resp now)\<rparr>"
| "uiEvent cfg idToken u (TimerFires h) = u\<lparr>page := pollStep cfg (page u) (Fire h)\<rparr>"
| "uiEvent cfg idToken u Unmounted = u\<lparr>page := pollStep cfg (page u) Unmount, mounted := False\<rparr>"

text \<open>One event: its handler, then the effect when the page is mounted and what it watches has changed.\<close>

definition uiStep :: "page_config \<Rightarrow> string option \<Rightarrow> ui_state \<Rightarrow> ui_event \<Rightarrow> ui_state" where
  "uiStep cfg idToken u ev =
     (let u1 = uiEvent cfg idToken u ev
      in if mounted u1 \<and> currentJobDeps (page u1) \<noteq> currentJobDeps (page u)
         then currentJobEffect cfg idToken u1 else u1)"

definition uiRun :: "page_config \<Rightarrow> string option \<Rightarrow> ui_state \<Rightarrow> ui_event list \<Rightarrow> ui_state" where
  "uiRun cfg idToken u evs = foldl (uiStep cfg idToken) u evs"

text \<open>
  The page as it is mounted. No job is current then, so that the first run of the effect
  does nothing.
\<close>

definition initialUi :: "OcrJob list \<Rightarrow> ui_state" where
  "initialUi js = \<lparr>page = initialPage js, mounted = True, resultFetches = []\<rparr>"

text \<open>
  At most one thing of the poll loop is pending, a request or a timeout, and nothing is
  pending while the processing flag is down.
\<close>

definition singleCycle :: "page_state \<Rightarrow> bool" where
  "singleCycle st =
     (length (timers st) + length (inflight st) \<le> 1 \<and>
      (isProcessing st \<or> (timers st = [] \<and> inflight st = [])))"

section \<open>The polling hook \<^verbatim>\<open>useOcrResult\<close>\<close>

text \<open>
  The hook polls one job at a time with \<^verbatim>\<open>setInterval\<close>. Its state: the three \<^verbatim>\<open>useState\<close>
  cells, the three refs, the browser's table of running intervals (handle and period),
  the next handle, and the status requests that await their response.
\<close>

datatype hook_status = HookIdle | HookPolling | HookCompleted | HookFailed

record hook_state =
  h_status :: hook_status
  h_result :: "poll_data option"
  h_error :: "string option"
  intervalRef :: "nat option"
  retriesRef :: nat
  jobIdRef :: "string option"
  intervals :: "(nat \<times> nat) list"
  nextInterval :: nat
  h_inflight :: "string list"

record hook_options =
  pollingInterval :: nat
  maxRetries :: nat

definition defaultHookOptions :: hook_options where
  "defaultHookOptions = \<lparr>pollingInterval = 3000, maxRetries = 60\<rparr>"

definition stopPolling :: "hook_state \<Rightarrow> hook_state" where
  "stopPolling st =
     (let st1 = (case intervalRef st of
                   None \<Rightarrow> st
                 | Some h \<Rightarrow>
                     if h = 0 then st
                     else st\<lparr>intervals := filter (\<lambda>t. fst t \<noteq> h) (intervals st),
                             intervalRef := None\<rparr>)
      in st1\<lparr>retriesRef := 0, jobIdRef := None\<rparr>)"

text \<open>\<^verbatim>\<open>pollStatus\<close> up to its \<^verbatim>\<open>await fetch\<close>, and its continuation for one outcome.\<close>

definition pollStatus_call :: "bool \<Rightarrow> hook_state \<Rightarrow> hook_state" where
  "pollStatus_call hasApiUrl st =
     (case jobIdRef st of
        None \<Rightarrow> st
      | Some jobId \<Rightarrow>
          if jobId = [] \<or> \<not> hasApiUrl then st
          else st\<lparr>h_inflight := h_inflight st @ [jobId]\<rparr>)"

definition countRetry :: "hook_options \<Rightarrow> string \<Rightarrow> hook_state \<Rightarrow> hook_state" where
  "countRetry opts msg st =
     (let st1 = st\<lparr>retriesRef := retriesRef st + 1\<rparr>
      in if retriesRef st1 \<ge> maxRetries opts
         then stopPolling (st1\<lparr>h_error := Some msg, h_status := HookFailed\<rparr>)
         else st1)"

definition pollStatus_settle :: "hook_options \<Rightarrow> poll_data fetch_result \<Rightarrow> hook_state \<Rightarrow> hook_state" where
  "pollStatus_settle opts resp st =
     (case resp of
        NetworkError \<Rightarrow> countRetry opts ''Failed to get OCR result after multiple attempts'' st
      | Response ok body \<Rightarrow>
          (if \<not> ok then countRetry opts ''Failed to get OCR result after multiple attempts'' st
           else
             (case body of
                None \<Rightarrow> countRetry opts ''Failed to get OCR result after multiple attempts'' st
              | Some data \<Rightarrow>
                  if p_status data = ''completed'' then
                    stopPolling (st\<lparr>h_result := Some data, h_status := HookCompleted\<rparr>)
                  else if p_status data = ''failed'' then
                    stopPolling
                      (st\<lparr>h_error := Some (case p_error data of
                                               None \<Rightarrow> ''OCR processing failed''
                                             | Some e \<Rightarrow> if e = [] then ''OCR processing failed'' else e),
                          h_status := HookFailed\<rparr>)
                  else countRetry opts ''Polling timeout: OCR processing took too long'' st)))"

definition startPolling :: "hook_options \<Rightarrow> bool \<Rightarrow> string \<Rightarrow> hook_state \<Rightarrow> hook_state" where
  "startPolling opts hasApiUrl jobId st =
     (let st1 = stopPolling st;
          st2 = st1\<lparr>jobIdRef := Some jobId, retriesRef := 0, h_status := HookPolling,
                    h_result := None, h_error := None\<rparr>;
          st3 = pollStatus_call hasApiUrl st2
      in st3\<lparr>intervals := intervals st3 @ [(nextInterval st3, pollingInterval opts)],
             intervalRef := Some (nextInterval st3),
             nextInterval := Suc (nextInterval st3)\<rparr>)"

datatype hook_event =
    StartPolling string
  | StopPolling
  | Tick nat
  | HookSettle "poll_data fetch_result"

fun hookStep :: "hook_options \<Rightarrow> bool \<Rightarrow> hook_state \<Rightarrow> hook_event \<Rightarrow> hook_state" where
  "hookStep opts hasApiUrl st (StartPolling jobId) = startPolling opts hasApiUrl jobId st"
| "hookStep opts hasApiUrl st StopPolling = stopPolling st"
| "hookStep opts hasApiUrl st (Tick h) =
     (if h \<in> fst ` set (intervals st) then pollStatus_call hasApiUrl st else st)"
| "hookStep opts hasApiUrl st (HookSettle resp) =
     (case h_inflight st of
        [] \<Rightarrow> st
      | jobId # pending \<Rightarrow> pollStatus_settle opts resp (st\<lparr>h_inflight := pending\<rparr>))"

definition hookRun :: "hook_options \<Rightarrow> bool \<Rightarrow> hook_state \<Rightarrow> hook_event list \<Rightarrow> hook_state" where
  "hookRun opts hasApiUrl st evs = foldl (hookStep opts hasApiUrl) st evs"

definition initialHook :: hook_state where
  "initialHook =
     \<lparr>h_status = HookIdle, h_result = None, h_error = None, intervalRef = None, retriesRef = 0,
      jobIdRef = None, intervals = [], nextInterval = 1, h_inflight = []\<rparr>"

text \<open>The interval table holds exactly the interval the ref remembers, if any.\<close>

definition oneInterval :: "hook_state \<Rightarrow> bool" where
  "oneInterval st =
     (case intervalRef st of
        None \<Rightarrow> intervals st = []
      | Some h \<Rightarrow> h \<noteq> 0 \<and> map fst (intervals st) = [h])"

section \<open>The job-list operations as the page issues them\<close>

text \<open>
  The update objects the page passes to \<^verbatim>\<open>updateJob\<close>:
  \<^item> \<^verbatim>\<open>{ status: 'completed', result: data.result, processingTimeMs }\<close> (poll, completed);
  \<^item> \<^verbatim>\<open>{ status: 'failed' }\<close> (poll, failed; the \<^verbatim>\<open>catch\<close> of \<^verbatim>\<open>handleSubmit\<close>);
  \<^item> \<^verbatim>\<open>{ s3Key }\<close> (after the id was replaced);
  \<^item> \<^verbatim>\<open>{ imageAvailable }\<close> (when the stored image is looked up);
  \<^item> \<^verbatim>\<open>{ result }\<close> with a truthy result (the lazy fetch of a revisited job).
\<close>

definition completedUpdate :: "result_payload option \<Rightarrow> int option \<Rightarrow> job_updates" where
  "completedUpdate r t =
     noUpdates\<lparr>u_status := Some Completed, u_result := Some r, u_processingTimeMs := Some t\<rparr>"

definition failedUpdate :: job_updates where
  "failedUpdate = noUpdates\<lparr>u_status := Some Failed\<rparr>"

definition resultUpdate :: "result_payload \<Rightarrow> job_updates" where
  "resultUpdate r = noUpdates\<lparr>u_result := Some (Some r)\<rparr>"

datatype list_op =
    OpAdd OcrJob
  | OpPollCompleted string "result_payload option" "int option"
  | OpFailed string
  | OpS3Key string string
  | OpImageAvailable string bool
  | OpLazyResult string result_payload
  | OpReplaceId string string
  | OpResync "listed_job list"

fun applyOp :: "job_list \<Rightarrow> list_op \<Rightarrow> job_list" where
  "applyOp l (OpAdd job) = addJob job l"
| "applyOp l (OpPollCompleted i r t) = updateJob i (completedUpdate r t) l"
| "applyOp l (OpFailed i) = updateJob i failedUpdate l"
| "applyOp l (OpS3Key i k) = updateJob i (noUpdates\<lparr>u_s3Key := Some k\<rparr>) l"
| "applyOp l (OpImageAvailable i b) = updateJob i (noUpdates\<lparr>u_imageAvailable := Some b\<rparr>) l"
| "applyOp l (OpLazyResult i r) = updateJob i (resultUpdate r) l"
| "applyOp l (OpReplaceId oldId newId) = replaceJobId oldId newId l"
| "applyOp l (OpResync listing) = setJobs (map fromListing listing) l"







section \<open>Example inputs\<close>

definition loadedView :: image_view where
  "loadedView =
     \<lparr>previewUrl = Some ''blob:page-1'', loadedImageUrl = Some ''blob:page-1'', showBbox = True,
      resultImageRef = Some \<lparr>clientWidth = 500, clientHeight = 400,
                              naturalWidth = 1000, naturalHeight = 800\<rparr>\<rparr>"

definition zeroBoxStructure :: OcrResultData where
  "zeroBoxStructure =
     \<lparr>rec_texts = None, rec_boxes = [], rec_scores = [],
      parsing_res_list = Some [\<lparr>block_label = ''text'', block_content = ''B'',
                                 block_bbox = (0, 0, 0, 0), block_id = 0, block_order = None,
                                 group_id = 0\<rparr>],
      width = Some 1000, height = Some 800\<rparr>"

definition oneBlockStructure :: OcrResultData where
  "oneBlockStructure =
     \<lparr>rec_texts = None, rec_boxes = [], rec_scores = [],
      parsing_res_list = Some [\<lparr>block_label = ''title'', block_content = ''A'',
                                 block_bbox = (100, 40, 300, 80), block_id = 0, block_order = Some 1,
                                 group_id = 0\<rparr>],
      width = Some 2000, height = Some 1600\<rparr>"

definition twoTextsV5 :: OcrResultData where
  "twoTextsV5 =
     \<lparr>rec_texts = Some [''A'', ''B''], rec_boxes = [[0, 0, 10, 10], [0, 0, 0, 0]],
      rec_scores = [0.9, 0.8], parsing_res_list = None, width = None, height = None\<rparr>"

definition oversizeFile :: selected_file where
  "oversizeFile = \<lparr>f_name = ''big.pdf'', f_size = 104857601, f_type = ''application/pdf''\<rparr>"

definition somePdfFileEnv :: file_env where
  "somePdfFileEnv =
     \<lparr>arrayBuffer = Some [37, 80, 68, 70], btoa = (\<lambda>bytes. ''JVBERg==''), pdf = threePageEnv,
      readAsDataURL = None\<rparr>"

definition nullResPayload :: result_payload where
  "nullResPayload = \<lparr>res = Some JNull, results = Some [JObj [(''width'', JNum 10)]]\<rparr>"

definition twoPagePayload :: result_payload where
  "twoPagePayload =
     \<lparr>res = None,
      results = Some [JObj [(''res'', JObj [(''page_index'', JNum 0)])],
                      JObj [(''page_index'', JNum 1)]]\<rparr>"

definition stillProcessing :: "poll_data fetch_result" where
  "stillProcessing = Response True (Some \<lparr>p_status = ''processing'', p_result = None, p_error = None\<rparr>)"

definition reportsCompleted :: "poll_data fetch_result" where
  "reportsCompleted =
     Response True (Some \<lparr>p_status = ''completed'',
                          p_result = Some \<lparr>res = Some (JObj [(''width'', JNum 10)]), results = None\<rparr>,
                          p_error = None\<rparr>)"

definition readyPage :: page_state where
  "readyPage =
     (initialPage [])\<lparr>imageData := Some \<lparr>img_base64 = Some ''iVBORw0KGgo='', img_filename = ''scan.png''\<rparr>,
                      previewUrl := Some ''data:image/png;base64,iVBORw0KGgo='',
                      step := StepOptions\<rparr>"

definition putFailsEnv :: submit_env where
  "putFailsEnv =
     \<lparr>now_start = 1700000000000, now_id = 1700000000000, now_created = 1700000000002,
      uploadResponse = Response True (Some \<lparr>upload_url = ''https://bucket.example/signed'',
                                           s3_key = ''uploads/scan.png''\<rparr>),
      atob = (\<lambda>t. Some [137, 80, 78, 71]),
      s3UploadResponse = Response False None,
      ocrResponse = Response True (Some ''7f3a'')\<rparr>"

definition pngFile :: selected_file where
  "pngFile = \<lparr>f_name = ''scan.png'', f_size = 2048, f_type = ''image/png''\<rparr>"

definition pngFileEnv :: file_env where
  "pngFileEnv =
     \<lparr>arrayBuffer = None, btoa = (\<lambda>bytes. []), pdf = threePageEnv,
      readAsDataURL = Some ''data:image/png;base64,iVBORw0KGgo=''\<rparr>"

definition acceptedEnv :: submit_env where
  "acceptedEnv = putFailsEnv\<lparr>s3UploadResponse := Response True None\<rparr>"


definition completedWithoutResult :: "poll_data fetch_result" where
  "completedWithoutResult =
     Response True (Some \<lparr>p_status = ''completed'', p_result = None, p_error = None\<rparr>)"

definition someToken :: "string option" where
  "someToken = Some ''eyJraWQiOiJ4In0''"

section \<open>Theorems\<close>

subsection \<open>A fact about lists\<close>

lemma find_in_set: "List.find P xs = Some x \<Longrightarrow> x \<in> set xs \<and> P x"
  by (induction xs) (auto split: if_splits)

subsection \<open>C10: page clamping of the PDF rasterizer\<close>

lemma validPageNum_range:
  "1 \<le> npages \<Longrightarrow> 1 \<le> validPageNum n npages \<and> validPageNum n npages \<le> npages"
  by (simp add: validPageNum_def)

text \<open>
  C10, as stated, fails: the claim says that for a document that loaded, the returned total
  page count always equals the document's page count. When the document loads with three
  pages but \<^verbatim>\<open>page.render(...).promise\<close> rejects, the \<^verbatim>\<open>catch\<close> block returns
  \<^verbatim>\<open>totalPages: 0\<close>.
\<close>

theorem renderPdfToImage_total_counterexample:
  "numPages failingRenderEnv = Some 3 \<and>
   snd (renderPdfToImage failingRenderEnv 2) = [GetDocument, GetPage 2, Render 2] \<and>
   totalPages (fst (renderPdfToImage failingRenderEnv 2)) = 0 \<and>
   totalPages (fst (renderPdfToImage failingRenderEnv 2)) \<noteq> 3"
  by (simp add: renderPdfToImage_def failingRenderEnv_def validPageNum_def)

text \<open>
  C10, amended: for a document that loads with \<open>t \<ge> 1\<close> pages and every requested page
  number \<open>n\<close>, the only page the rasterizer fetches is \<open>max 1 (min n t)\<close>, which lies in
  \<open>1..t\<close>; when fetching and rendering that page do not reject, the returned total page
  count is \<open>t\<close> (with an image when a 2d context exists, with no image otherwise); when
  one of them rejects, the result is no image and a page count of 0.
\<close>

theorem renderPdfToImage_clamps:
  assumes "numPages env = Some t" and "1 \<le> t"
  shows "1 \<le> max 1 (min n t) \<and> max 1 (min n t) \<le> t \<and>
     (\<forall>k. GetPage k \<in> set (snd (renderPdfToImage env n)) \<longleftrightarrow> k = max 1 (min n t)) \<and>
     (\<forall>k. Render k \<in> set (snd (renderPdfToImage env n)) \<longrightarrow> k = max 1 (min n t)) \<and>
     (pageLoads env (max 1 (min n t)) \<and> \<not> hasContext env \<longrightarrow>
        fst (renderPdfToImage env n) = \<lparr>dataUrl = None, totalPages = t\<rparr>) \<and>
     (\<forall>url. pageLoads env (max 1 (min n t)) \<and> hasContext env \<and>
        pageRenders env (max 1 (min n t)) = Some url \<longrightarrow>
        fst (renderPdfToImage env n) = \<lparr>dataUrl = Some url, totalPages = t\<rparr>) \<and>
     (\<not> pageLoads env (max 1 (min n t)) \<or>
      (hasContext env \<and> pageRenders env (max 1 (min n t)) = None) \<longrightarrow>
        fst (renderPdfToImage env n) = \<lparr>dataUrl = None, totalPages = 0\<rparr>)"
  using assms
  by (auto simp add: renderPdfToImage_def validPageNum_def Let_def split: option.splits)

theorem renderPdfToImage_clamps_witness:
  "snd (renderPdfToImage threePageEnv 7) = [GetDocument, GetPage 3, Render 3] \<and>
   fst (renderPdfToImage threePageEnv 7) =
     \<lparr>dataUrl = Some ''data:image/jpeg;base64,page'', totalPages = 3\<rparr> \<and>
   fst (renderPdfToImage threePageEnv (- 4)) =
     \<lparr>dataUrl = Some ''data:image/jpeg;base64,page'', totalPages = 3\<rparr> \<and>
   GetPage 1 \<in> set (snd (renderPdfToImage threePageEnv (- 4)))"
proof -
  have t: "numPages threePageEnv = Some 3" and le: "(1::int) \<le> 3"
    by (simp_all add: threePageEnv_def)
  have a: "fst (renderPdfToImage threePageEnv 7) =
      \<lparr>dataUrl = Some ''data:image/jpeg;base64,page'', totalPages = 3\<rparr>"
    using renderPdfToImage_clamps [OF t le, of 7] by (simp add: threePageEnv_def)
  have b: "fst (renderPdfToImage threePageEnv (- 4)) =
      \<lparr>dataUrl = Some ''data:image/jpeg;base64,page'', totalPages = 3\<rparr>"
    using renderPdfToImage_clamps [OF t le, of "- 4"] by (simp add: threePageEnv_def)
  have c: "GetPage 1 \<in> set (snd (renderPdfToImage threePageEnv (- 4)))"
    using renderPdfToImage_clamps [OF t le, of "- 4"] by simp
  have d: "snd (renderPdfToImage threePageEnv 7) = [GetDocument, GetPage 3, Render 3]"
    by (simp add: renderPdfToImage_def threePageEnv_def validPageNum_def)
  show ?thesis using a b c d by simp
qed

subsection \<open>C9: files above 100 MB are rejected\<close>

text \<open>
  C9: a selected file whose size exceeds \<open>100 * 1024 * 1024\<close> bytes only raises the
  "too large" alert. The page state is otherwise untouched: no preview, no image data, no
  step change, no request, no job. With no image data held, a submission after the
  rejection does nothing either, so nothing of the file is ever uploaded.
\<close>

theorem handleFileSelect_rejects_oversize:
  assumes "f_size f > 100 * 1024 * 1024"
  shows "handleFileSelect env f st = st\<lparr>effects := effects st @ [AlertFileTooLarge (f_size f)]\<rparr> \<and>
     (imageData st = None \<longrightarrow>
        handleSubmit cfg senv (handleFileSelect env f st) = handleFileSelect env f st)"
  using assms by (simp add: handleFileSelect_def MAX_FILE_SIZE_def emit_def handleSubmit_def)

theorem handleFileSelect_rejects_oversize_witness:
  "f_size oversizeFile = 104857601 \<and>
   handleFileSelect somePdfFileEnv oversizeFile (initialPage []) =
     (initialPage [])\<lparr>effects := [AlertFileTooLarge 104857601]\<rparr> \<and>
   previewUrl (handleFileSelect somePdfFileEnv oversizeFile (initialPage [])) = None \<and>
   jobs (jobList (handleFileSelect somePdfFileEnv oversizeFile (initialPage []))) = []"
proof -
  have big: "f_size oversizeFile > 100 * 1024 * 1024"
    by (simp add: oversizeFile_def)
  have "handleFileSelect somePdfFileEnv oversizeFile (initialPage []) =
     (initialPage [])\<lparr>effects := effects (initialPage []) @ [AlertFileTooLarge (f_size oversizeFile)]\<rparr>"
    using handleFileSelect_rejects_oversize [OF big] by simp
  then show ?thesis
    by (simp add: oversizeFile_def initialPage_def)
qed

text \<open>A file of exactly 100 MB is not rejected: the PDF branch runs and sets the preview.\<close>

lemma handleFileSelect_accepts_limit:
  "step (handleFileSelect somePdfFileEnv (oversizeFile\<lparr>f_size := 104857600\<rparr>) (initialPage []))
     = StepOptions"
  by (simp add: handleFileSelect_def MAX_FILE_SIZE_def oversizeFile_def somePdfFileEnv_def
      threePageEnv_def renderPdfToImage_def validPageNum_def initialPage_def)

subsection \<open>C1 and C8: overlay rectangles\<close>

lemma structureOverlays_nth:
  assumes "imageReady v" and "\<not> isOcrV5Result d" and "resultImageRef v = Some imageEl"
    and "i < length (blocksOf d)"
  shows "structureOverlays v d ! i = structureOverlay imageEl d i (blocksOf d ! i)"
  using assms by (simp add: structureOverlays_def nth_enumerate_eq)

lemma v5Overlays_nth:
  assumes "imageReady v" and "rec_texts d = Some texts" and "resultImageRef v = Some imageEl"
    and "i < length texts"
  shows "v5Overlays g v d ! i = v5Overlay g imageEl d i"
  using assms by (simp add: v5Overlays_def isOcrV5Result_def)

text \<open>
  C1 holds on the flat-recognition path: an item whose box is all zeros yields no entry,
  whatever the helper computes for the other items.
\<close>

lemma v5Overlay_skips_zero_box:
  "getV5Bbox d idx = (0, 0, 0, 0) \<Longrightarrow> v5Overlay getV5Bbox imageEl d idx = None"
  by (simp add: v5Overlay_def)

theorem v5Overlay_skips_zero_box_witness:
  "recBoxAt twoTextsV5 1 = (0, 0, 0, 0) \<and>
   v5Overlay recBoxAt \<lparr>clientWidth = 500, clientHeight = 400, naturalWidth = 1000,
                        naturalHeight = 800\<rparr> twoTextsV5 1 = None"
proof -
  have z: "recBoxAt twoTextsV5 1 = (0, 0, 0, 0)"
    by (simp add: recBoxAt_def twoTextsV5_def)
  show ?thesis
    using v5Overlay_skips_zero_box [of recBoxAt twoTextsV5 1] z by simp
qed

lemma v5Overlays_spec_example:
  "rendered (v5Overlays recBoxAt loadedView twoTextsV5) =
     [\<lparr>ov_key = 0, ov_left = 0, ov_top = 0, ov_width = 5, ov_height = 5\<rparr>]"
  by (simp add: v5Overlays_def loadedView_def twoTextsV5_def imageReady_def
      isOcrV5Result_def v5Overlay_def recBoxAt_def upt_rec)

text \<open>
  C1 fails on the structured path: the callback of \<^verbatim>\<open>blocks.map\<close> has no test of the box,
  so a block whose \<^verbatim>\<open>block_bbox\<close> is \<open>(0,0,0,0)\<close> is drawn as a rectangle of size zero at the
  origin. The input below is a structured result with one such block on a loaded image.
\<close>

theorem structureOverlays_draws_zero_box:
  "rendered (structureOverlays loadedView zeroBoxStructure) =
     [\<lparr>ov_key = 0, ov_left = 0, ov_top = 0, ov_width = 0, ov_height = 0\<rparr>]"
  by (simp add: structureOverlays_def loadedView_def zeroBoxStructure_def imageReady_def
      isOcrV5Result_def blocksOf_def structureOverlay_def)

lemma structureOverlay_Some:
  assumes "structureOverlay imageEl d idx block = Some ov"
  shows "\<exists>w h. width d = Some w \<and> height d = Some h \<and> w \<noteq> 0 \<and> h \<noteq> 0 \<and>
     ov = \<lparr>ov_key = idx,
           ov_left = fst (block_bbox block) * (clientWidth imageEl / w),
           ov_top = fst (snd (block_bbox block)) * (clientHeight imageEl / h),
           ov_width = (fst (snd (snd (block_bbox block))) - fst (block_bbox block)) * (clientWidth imageEl / w),
           ov_height = (snd (snd (snd (block_bbox block))) - fst (snd (block_bbox block))) * (clientHeight imageEl / h)\<rparr>"
  using assms
  by (auto simp add: structureOverlay_def Let_def split: prod.splits option.splits if_splits)

lemma v5Overlay_Some:
  assumes "v5Overlay g imageEl d idx = Some ov"
  shows "naturalWidth imageEl \<noteq> 0 \<and> naturalHeight imageEl \<noteq> 0 \<and> g d idx \<noteq> (0, 0, 0, 0) \<and>
     ov = \<lparr>ov_key = idx,
           ov_left = fst (g d idx) * (clientWidth imageEl / naturalWidth imageEl),
           ov_top = fst (snd (g d idx)) * (clientHeight imageEl / naturalHeight imageEl),
           ov_width = (fst (snd (snd (g d idx))) - fst (g d idx)) * (clientWidth imageEl / naturalWidth imageEl),
           ov_height = (snd (snd (snd (g d idx))) - fst (snd (g d idx))) * (clientHeight imageEl / naturalHeight imageEl)\<rparr>"
  using assms
  by (auto simp add: v5Overlay_def Let_def split: prod.splits if_splits)

lemma structureOverlays_length:
  "length (structureOverlays v d) \<le> length (blocksOf d)"
  by (simp add: structureOverlays_def split: option.splits)

lemma structureOverlays_gate:
  assumes "i < length (structureOverlays v d)"
  shows "imageReady v \<and> \<not> isOcrV5Result d \<and> (\<exists>imageEl. resultImageRef v = Some imageEl) \<and> i < length (blocksOf d)"
  using assms by (auto simp add: structureOverlays_def split: option.splits if_splits)

lemma v5Overlays_gate:
  assumes "i < length (v5Overlays g v d)"
  shows "imageReady v \<and> (\<exists>imageEl texts. resultImageRef v = Some imageEl \<and> rec_texts d = Some texts \<and> i < length texts)"
  using assms by (auto simp add: v5Overlays_def split: option.splits if_splits)

text \<open>
  C8: every overlay that is drawn has the stated geometry. For the structured shape the
  scale factors are the displayed width and height of the image element divided by the
  width and height the payload reports; for the flat-recognition shape they are the
  displayed width and height divided by the natural width and height of the image. An entry
  is only computed behind the load flag of exactly the displayed URL. The last two parts
  say when an overlay is drawn at all: for the structured shape when the payload reports
  non-zero dimensions, for the flat shape when the box is not all zeros and the natural
  dimensions are non-zero.
\<close>

theorem overlay_geometry:
  "(\<forall>i ov. i < length (structureOverlays v d) \<and> structureOverlays v d ! i = Some ov \<longrightarrow>
      (\<exists>imageEl w h x1 y1 x2 y2.
         imageReady v \<and> resultImageRef v = Some imageEl \<and>
         block_bbox (blocksOf d ! i) = (x1, y1, x2, y2) \<and>
         width d = Some w \<and> height d = Some h \<and> w \<noteq> 0 \<and> h \<noteq> 0 \<and>
         ov_left ov = x1 * (clientWidth imageEl / w) \<and>
         ov_top ov = y1 * (clientHeight imageEl / h) \<and>
         ov_width ov = (x2 - x1) * (clientWidth imageEl / w) \<and>
         ov_height ov = (y2 - y1) * (clientHeight imageEl / h))) \<and>
   (\<forall>i ov. i < length (v5Overlays getV5Bbox v d) \<and> v5Overlays getV5Bbox v d ! i = Some ov \<longrightarrow>
      (\<exists>imageEl x1 y1 x2 y2.
         imageReady v \<and> resultImageRef v = Some imageEl \<and>
         getV5Bbox d i = (x1, y1, x2, y2) \<and>
         naturalWidth imageEl \<noteq> 0 \<and> naturalHeight imageEl \<noteq> 0 \<and>
         ov_left ov = x1 * (clientWidth imageEl / naturalWidth imageEl) \<and>
         ov_top ov = y1 * (clientHeight imageEl / naturalHeight imageEl) \<and>
         ov_width ov = (x2 - x1) * (clientWidth imageEl / naturalWidth imageEl) \<and>
         ov_height ov = (y2 - y1) * (clientHeight imageEl / naturalHeight imageEl))) \<and>
   (\<forall>i imageEl w h. imageReady v \<and> \<not> isOcrV5Result d \<and> resultImageRef v = Some imageEl \<and>
      i < length (blocksOf d) \<and> width d = Some w \<and> height d = Some h \<and> w \<noteq> 0 \<and> h \<noteq> 0 \<longrightarrow>
      (\<exists>ov. structureOverlays v d ! i = Some ov)) \<and>
   (\<forall>i imageEl texts. imageReady v \<and> rec_texts d = Some texts \<and> resultImageRef v = Some imageEl \<and>
      i < length texts \<and> getV5Bbox d i \<noteq> (0, 0, 0, 0) \<and>
      naturalWidth imageEl \<noteq> 0 \<and> naturalHeight imageEl \<noteq> 0 \<longrightarrow>
      (\<exists>ov. v5Overlays getV5Bbox v d ! i = Some ov))"
proof (intro conjI allI impI)
  fix i ov
  assume h: "i < length (structureOverlays v d) \<and> structureOverlays v d ! i = Some ov"
  from structureOverlays_gate [of i v d] h obtain imageEl where
    g: "imageReady v" "\<not> isOcrV5Result d" "resultImageRef v = Some imageEl" "i < length (blocksOf d)"
    by blast
  have "structureOverlay imageEl d i (blocksOf d ! i) = Some ov"
    using structureOverlays_nth [OF g] h by simp
  from structureOverlay_Some [OF this] g(1,3)
  show "\<exists>imageEl w h x1 y1 x2 y2.
         imageReady v \<and> resultImageRef v = Some imageEl \<and>
         block_bbox (blocksOf d ! i) = (x1, y1, x2, y2) \<and>
         width d = Some w \<and> height d = Some h \<and> w \<noteq> 0 \<and> h \<noteq> 0 \<and>
         ov_left ov = x1 * (clientWidth imageEl / w) \<and>
         ov_top ov = y1 * (clientHeight imageEl / h) \<and>
         ov_width ov = (x2 - x1) * (clientWidth imageEl / w) \<and>
         ov_height ov = (y2 - y1) * (clientHeight imageEl / h)"
    by (cases "block_bbox (blocksOf d ! i)") auto
next
  fix i ov
  assume h: "i < length (v5Overlays getV5Bbox v d) \<and> v5Overlays getV5Bbox v d ! i = Some ov"
  from v5Overlays_gate [of i getV5Bbox v d] h obtain imageEl texts where
    g: "imageReady v" "rec_texts d = Some texts" "resultImageRef v = Some imageEl" "i < length texts"
    by blast
  have "v5Overlay getV5Bbox imageEl d i = Some ov"
    using v5Overlays_nth [OF g] h by simp
  from v5Overlay_Some [OF this] g(1,3)
  show "\<exists>imageEl x1 y1 x2 y2.
         imageReady v \<and> resultImageRef v = Some imageEl \<and>
         getV5Bbox d i = (x1, y1, x2, y2) \<and>
         naturalWidth imageEl \<noteq> 0 \<and> naturalHeight imageEl \<noteq> 0 \<and>
         ov_left ov = x1 * (clientWidth imageEl / naturalWidth imageEl) \<and>
         ov_top ov = y1 * (clientHeight imageEl / naturalHeight imageEl) \<and>
         ov_width ov = (x2 - x1) * (clientWidth imageEl / naturalWidth imageEl) \<and>
         ov_height ov = (y2 - y1) * (clientHeight imageEl / naturalHeight imageEl)"
    by (cases "getV5Bbox d i") auto
next
  fix i imageEl w h
  assume h: "imageReady v \<and> \<not> isOcrV5Result d \<and> resultImageRef v = Some imageEl \<and>
      i < length (blocksOf d) \<and> width d = Some w \<and> height d = Some h \<and> w \<noteq> 0 \<and> h \<noteq> 0"
  then have "structureOverlays v d ! i = structureOverlay imageEl d i (blocksOf d ! i)"
    using structureOverlays_nth by blast
  then show "\<exists>ov. structureOverlays v d ! i = Some ov"
    using h by (simp add: structureOverlay_def Let_def split: prod.splits)
next
  fix i imageEl texts
  assume h: "imageReady v \<and> rec_texts d = Some texts \<and> resultImageRef v = Some imageEl \<and>
      i < length texts \<and> getV5Bbox d i \<noteq> (0, 0, 0, 0) \<and>
      naturalWidth imageEl \<noteq> 0 \<and> naturalHeight imageEl \<noteq> 0"
  then have "v5Overlays getV5Bbox v d ! i = v5Overlay getV5Bbox imageEl d i"
    using v5Overlays_nth by blast
  then show "\<exists>ov. v5Overlays getV5Bbox v d ! i = Some ov"
    using h by (auto simp add: v5Overlay_def Let_def split: prod.splits)
qed

theorem overlay_geometry_witness:
  "structureOverlays loadedView oneBlockStructure =
     [Some \<lparr>ov_key = 0, ov_left = 25, ov_top = 10, ov_width = 50, ov_height = 10\<rparr>] \<and>
   v5Overlays recBoxAt loadedView twoTextsV5 =
     [Some \<lparr>ov_key = 0, ov_left = 0, ov_top = 0, ov_width = 5, ov_height = 5\<rparr>, None]"
proof -
  have s: "structureOverlays loadedView oneBlockStructure =
     [Some \<lparr>ov_key = 0, ov_left = 25, ov_top = 10, ov_width = 50, ov_height = 10\<rparr>]"
    by (simp add: structureOverlays_def loadedView_def oneBlockStructure_def imageReady_def
      isOcrV5Result_def blocksOf_def structureOverlay_def)
  have t: "v5Overlays recBoxAt loadedView twoTextsV5 =
     [Some \<lparr>ov_key = 0, ov_left = 0, ov_top = 0, ov_width = 5, ov_height = 5\<rparr>, None]"
    by (simp add: v5Overlays_def loadedView_def twoTextsV5_def imageReady_def
      isOcrV5Result_def v5Overlay_def recBoxAt_def upt_rec)
  have "\<exists>imageEl w h x1 y1 x2 y2.
         imageReady loadedView \<and> resultImageRef loadedView = Some imageEl \<and>
         block_bbox (blocksOf oneBlockStructure ! 0) = (x1, y1, x2, y2) \<and>
         width oneBlockStructure = Some w \<and> height oneBlockStructure = Some h \<and> w \<noteq> 0 \<and> h \<noteq> 0 \<and>
         ov_left \<lparr>ov_key = 0, ov_left = 25, ov_top = 10, ov_width = 50, ov_height = 10\<rparr>
           = x1 * (clientWidth imageEl / w)"
    using overlay_geometry [of loadedView oneBlockStructure recBoxAt] s by fastforce
  then show ?thesis using s t by simp
qed

subsection \<open>C2: the page result of a job\<close>

lemma jsIndex_selectedPage:
  assumes "rs \<noteq> []"
  shows "(if truthyOpt (jsIndex rs (p - 1)) then jsIndex rs (p - 1) else jsIndex rs 0)
         = Some (selectedPage rs p)"
  using assms by (auto simp add: jsIndex_def selectedPage_def)

lemma getRes_unwrapRes:
  assumes "e \<noteq> JNull"
  shows "(case getRes e of Inl x \<Rightarrow> Inl x | Inr v \<Rightarrow> if truthyOpt v then Inr v else Inr (Some e))
         = Inr (Some (unwrapRes e))"
  using assms by (cases e) (auto simp add: unwrapRes_def split: option.splits)

lemma selectedPage_in_range:
  "1 \<le> p \<Longrightarrow> p \<le> int (length rs) \<Longrightarrow> truthy (rs ! nat (p - 1)) \<Longrightarrow>
   selectedPage rs p = rs ! nat (p - 1)"
  by (simp add: selectedPage_def)

lemma selectedPage_fallback:
  "p < 1 \<or> int (length rs) < p \<Longrightarrow> selectedPage rs p = rs ! 0"
  by (auto simp add: selectedPage_def)

lemma unwrapRes_object:
  "truthy v \<Longrightarrow> map_of kvs ''res'' = Some v \<Longrightarrow> unwrapRes (JObj kvs) = v"
  by (simp add: unwrapRes_def)

lemma isObject_truthy: "isObject v \<Longrightarrow> truthy v"
  by (cases v) simp_all

lemma pageObject_isObject: "pageObject v \<Longrightarrow> isObject v"
  by (cases v) simp_all

lemma specSelectedPage_mem: "rs \<noteq> [] \<Longrightarrow> specSelectedPage rs p \<in> set rs"
  by (auto simp add: specSelectedPage_def)

lemma jsIndex_specSelectedPage:
  assumes "rs \<noteq> []" and "list_all pageObject rs"
  shows "(if truthyOpt (jsIndex rs (p - 1)) then jsIndex rs (p - 1) else jsIndex rs 0)
         = Some (specSelectedPage rs p)"
proof -
  have "truthy (rs ! nat (p - 1))" if "1 \<le> p" "p \<le> int (length rs)"
  proof -
    have "rs ! nat (p - 1) \<in> set rs" using that by simp
    then show ?thesis
      using assms(2) isObject_truthy pageObject_isObject by (auto simp add: list_all_iff)
  qed
  then show ?thesis
    using assms(1) by (auto simp add: jsIndex_def specSelectedPage_def)
qed

lemma getRes_specUnwrap:
  assumes "pageObject e"
  shows "(case getRes e of Inl x \<Rightarrow> Inl x | Inr v \<Rightarrow> if truthyOpt v then Inr v else Inr (Some e))
         = Inr (Some (specUnwrap e))"
proof (cases e)
  case (JObj kvs)
  then show ?thesis
    using assms isObject_truthy
    by (cases "map_of kvs ''res''") (auto simp add: specUnwrap_def)
qed (use assms in simp_all)

text \<open>
  C2: for a job whose result payload has the type the source casts it to, \<^verbatim>\<open>getResultData\<close>
  returns what the specification describes. A payload with a top-level \<^verbatim>\<open>res\<close> key gives the
  value of that key. Otherwise a payload with a non-empty \<^verbatim>\<open>results\<close> array gives, for the
  current page \<open>p\<close>, the element \<open>results[p-1]\<close>, or \<open>results[0]\<close> when the index \<open>p-1\<close> is out
  of range, unwrapped through its \<^verbatim>\<open>res\<close> key when it has one and taken as it is otherwise.
  A payload of neither shape gives no result. Nothing is asked of the status of the job.
\<close>

theorem getResultData_shapes:
  assumes "result j = Some r" and "typedPayload r"
  shows "getResultData (Some j) p = Inr (specResultData r p)"
proof (cases "res r")
  case (Some v)
  then have "truthy v" using assms(2) isObject_truthy by (simp add: typedPayload_def)
  then show ?thesis using assms(1) Some by (simp add: getResultData_def specResultData_def)
next
  case None
  show ?thesis
  proof (cases "results r")
    case n: None
    then show ?thesis using assms(1) None by (simp add: getResultData_def specResultData_def)
  next
    case (Some rs)
    show ?thesis
    proof (cases "rs = []")
      case True
      then show ?thesis using assms(1) None Some by (simp add: getResultData_def specResultData_def)
    next
      case False
      have pg: "list_all pageObject rs" using assms(2) Some by (simp add: typedPayload_def)
      then have "pageObject (specSelectedPage rs p)"
        using specSelectedPage_mem [OF False, of p] by (simp add: list_all_iff)
      then show ?thesis
        using assms(1) None Some False jsIndex_specSelectedPage [OF False pg, of p]
          getRes_specUnwrap [of "specSelectedPage rs p"]
        by (simp add: getResultData_def specResultData_def)
    qed
  qed
qed

theorem getResultData_shapes_witness:
  "typedPayload twoPagePayload \<and>
   getResultData (Some (mkJob ''7f3a'' Completed (Some twoPagePayload))) 2
     = Inr (Some (JObj [(''page_index'', JNum 1)])) \<and>
   getResultData (Some (mkJob ''7f3a'' Completed (Some twoPagePayload))) 1
     = Inr (Some (JObj [(''page_index'', JNum 0)])) \<and>
   getResultData (Some (mkJob ''7f3a'' Completed (Some twoPagePayload))) 3
     = Inr (Some (JObj [(''page_index'', JNum 0)])) \<and>
   getResultData (Some (mkJob ''7f3a'' Completed
       (Some \<lparr>res = Some (JObj [(''width'', JNum 10)]), results = Some [JObj []]\<rparr>))) 1
     = Inr (Some (JObj [(''width'', JNum 10)])) \<and>
   getResultData (Some (mkJob ''7f3a'' Completed (Some \<lparr>res = None, results = Some []\<rparr>))) 1
     = Inr None"
proof -
  have r: "result (mkJob ''7f3a'' Completed (Some pl)) = Some pl" for pl
    by (simp add: mkJob_def)
  have t: "typedPayload twoPagePayload"
    by (simp add: typedPayload_def twoPagePayload_def)
  have a: "getResultData (Some (mkJob ''7f3a'' Completed (Some twoPagePayload))) 2
     = Inr (Some (JObj [(''page_index'', JNum 1)]))"
    using getResultData_shapes [OF r t, where p = 2]
    by (simp add: twoPagePayload_def specResultData_def specSelectedPage_def specUnwrap_def)
  have b: "getResultData (Some (mkJob ''7f3a'' Completed (Some twoPagePayload))) 1
     = Inr (Some (JObj [(''page_index'', JNum 0)]))"
    using getResultData_shapes [OF r t, where p = 1]
    by (simp add: twoPagePayload_def specResultData_def specSelectedPage_def specUnwrap_def)
  have c: "getResultData (Some (mkJob ''7f3a'' Completed (Some twoPagePayload))) 3
     = Inr (Some (JObj [(''page_index'', JNum 0)]))"
    using getResultData_shapes [OF r t, where p = 3]
    by (simp add: twoPagePayload_def specResultData_def specSelectedPage_def specUnwrap_def)
  have d: "getResultData (Some (mkJob ''7f3a'' Completed
       (Some \<lparr>res = Some (JObj [(''width'', JNum 10)]), results = Some [JObj []]\<rparr>))) 1
     = Inr (Some (JObj [(''width'', JNum 10)]))"
    using getResultData_shapes [OF r, of "\<lparr>res = Some (JObj [(''width'', JNum 10)]), results = Some [JObj []]\<rparr>" 1]
    by (simp add: typedPayload_def specResultData_def)
  have e: "getResultData (Some (mkJob ''7f3a'' Completed (Some \<lparr>res = None, results = Some []\<rparr>))) 1
     = Inr None"
    using getResultData_shapes [OF r, of "\<lparr>res = None, results = Some []\<rparr>" 1]
    by (simp add: typedPayload_def specResultData_def)
  show ?thesis using t a b c d e by simp
qed

text \<open>
  For a payload of any content JavaScript truthiness decides. A truthy top-level \<^verbatim>\<open>res\<close> is
  returned. Otherwise, for a non-empty \<^verbatim>\<open>results\<close> array and current page \<open>p\<close>, the selected
  element is \<open>results[p-1]\<close> when that index is in range and the element is truthy, and
  \<open>results[0]\<close> otherwise; a selected element other than \<^verbatim>\<open>null\<close> is unwrapped through its
  \<^verbatim>\<open>res\<close> key when that holds a truthy value and is returned itself otherwise, and for a
  selected element \<^verbatim>\<open>null\<close> reading its \<^verbatim>\<open>res\<close> throws. With no truthy \<^verbatim>\<open>res\<close> and no
  non-empty \<^verbatim>\<open>results\<close> there is no result.
\<close>

theorem getResultData_pages:
  assumes "result j = Some r"
  shows "(\<forall>v. res r = Some v \<and> truthy v \<longrightarrow> getResultData (Some j) p = Inr (Some v)) \<and>
     (\<forall>rs. \<not> truthyOpt (res r) \<and> results r = Some rs \<and> rs \<noteq> [] \<and> selectedPage rs p \<noteq> JNull \<longrightarrow>
        getResultData (Some j) p = Inr (Some (unwrapRes (selectedPage rs p)))) \<and>
     (\<forall>rs. \<not> truthyOpt (res r) \<and> results r = Some rs \<and> rs \<noteq> [] \<and> selectedPage rs p = JNull \<longrightarrow>
        getResultData (Some j) p = Inl TypeError) \<and>
     (\<not> truthyOpt (res r) \<and> (results r = None \<or> results r = Some []) \<longrightarrow>
        getResultData (Some j) p = Inr None)"
proof (intro conjI allI impI)
  fix v assume "res r = Some v \<and> truthy v"
  then show "getResultData (Some j) p = Inr (Some v)"
    using assms by (simp add: getResultData_def)
next
  fix rs
  assume h: "\<not> truthyOpt (res r) \<and> results r = Some rs \<and> rs \<noteq> [] \<and> selectedPage rs p \<noteq> JNull"
  then show "getResultData (Some j) p = Inr (Some (unwrapRes (selectedPage rs p)))"
    using assms jsIndex_selectedPage [of rs p] getRes_unwrapRes [of "selectedPage rs p"]
    by (simp add: getResultData_def)
next
  fix rs
  assume h: "\<not> truthyOpt (res r) \<and> results r = Some rs \<and> rs \<noteq> [] \<and> selectedPage rs p = JNull"
  then show "getResultData (Some j) p = Inl TypeError"
    using assms jsIndex_selectedPage [of rs p]
    by (simp add: getResultData_def)
next
  assume "\<not> truthyOpt (res r) \<and> (results r = None \<or> results r = Some [])"
  then show "getResultData (Some j) p = Inr None"
    using assms by (auto simp add: getResultData_def)
qed

theorem getResultData_pages_witness:
  "getResultData (Some (mkJob ''7f3a'' Completed (Some twoPagePayload))) 2
     = Inr (Some (JObj [(''page_index'', JNum 1)])) \<and>
   getResultData (Some (mkJob ''7f3a'' Completed (Some twoPagePayload))) 3
     = Inr (Some (JObj [(''page_index'', JNum 0)])) \<and>
   getResultData (Some (mkJob ''7f3a'' Completed
       (Some \<lparr>res = Some (JObj [(''width'', JNum 10)]), results = None\<rparr>))) 1
     = Inr (Some (JObj [(''width'', JNum 10)])) \<and>
   getResultData (Some (mkJob ''7f3a'' Completed (Some \<lparr>res = None, results = Some []\<rparr>))) 1
     = Inr None \<and>
   getResultData (Some (mkJob ''7f3a'' Completed
       (Some \<lparr>res = Some JNull, results = Some [JNull, JObj []]\<rparr>))) 3
     = Inl TypeError"
proof -
  have r: "result (mkJob ''7f3a'' Completed (Some pl)) = Some pl" for pl
    by (simp add: mkJob_def)
  have e: "getResultData (Some (mkJob ''7f3a'' Completed
       (Some \<lparr>res = Some JNull, results = Some [JNull, JObj []]\<rparr>))) 3
     = Inl TypeError"
    using getResultData_pages [OF r, of "\<lparr>res = Some JNull, results = Some [JNull, JObj []]\<rparr>" 3]
    by (simp add: selectedPage_def)
  have a: "getResultData (Some (mkJob ''7f3a'' Completed (Some twoPagePayload))) 2
     = Inr (Some (JObj [(''page_index'', JNum 1)]))"
    using getResultData_pages [OF r, of twoPagePayload 2]
    by (simp add: twoPagePayload_def selectedPage_def unwrapRes_def)
  have b: "getResultData (Some (mkJob ''7f3a'' Completed (Some twoPagePayload))) 3
     = Inr (Some (JObj [(''page_index'', JNum 0)]))"
    using getResultData_pages [OF r, of twoPagePayload 3]
    by (simp add: twoPagePayload_def selectedPage_def unwrapRes_def)
  have c: "getResultData (Some (mkJob ''7f3a'' Completed
       (Some \<lparr>res = Some (JObj [(''width'', JNum 10)]), results = None\<rparr>))) 1
     = Inr (Some (JObj [(''width'', JNum 10)]))"
    using getResultData_pages [OF r, of "\<lparr>res = Some (JObj [(''width'', JNum 10)]), results = None\<rparr>" 1]
    by simp
  have d: "getResultData (Some (mkJob ''7f3a'' Completed (Some \<lparr>res = None, results = Some []\<rparr>))) 1
     = Inr None"
    using getResultData_pages [OF r, of "\<lparr>res = None, results = Some []\<rparr>" 1]
    by simp
  show ?thesis using a b c d e by simp
qed

text \<open>
  Two payloads outside the type: a \<^verbatim>\<open>res\<close> key that holds \<^verbatim>\<open>null\<close> is passed over, and the first
  element of \<^verbatim>\<open>results\<close> is returned; a \<^verbatim>\<open>results\<close> array whose only element is \<^verbatim>\<open>null\<close> makes
  the function throw.
\<close>

lemma getResultData_null_res:
  "res nullResPayload = Some JNull \<and>
   getResultData (Some (mkJob ''7f3a'' Completed (Some nullResPayload))) 1
     = Inr (Some (JObj [(''width'', JNum 10)])) \<and>
   getResultData (Some (mkJob ''7f3a'' Completed (Some nullResPayload))) 1 \<noteq> Inr (Some JNull)"
  by (simp add: getResultData_def nullResPayload_def mkJob_def jsIndex_def)

lemma getResultData_null_element:
  "getResultData (Some (mkJob ''7f3a'' Completed (Some \<lparr>res = None, results = Some [JNull]\<rparr>))) 1
     = Inl TypeError"
  by (simp add: getResultData_def mkJob_def jsIndex_def)

subsection \<open>C5: a failed upload\<close>

lemma updateJob_absent:
  assumes "list_all (\<lambda>j. job_id j \<noteq> i) (jobs l)"
  shows "updateJob i u l = l"
proof -
  have "map (\<lambda>job. if job_id job = i then applyUpdates job u else job) (jobs l) = jobs l"
    using assms by (induction "jobs l" arbitrary: l) (auto simp add: list_all_iff map_idI)
  then show ?thesis by (simp add: updateJob_def)
qed

text \<open>
  C5, as stated, fails: the claim says the job transitions directly to failed. The job is
  added to the list only after the \<^verbatim>\<open>PUT\<close> succeeded, so when the \<^verbatim>\<open>PUT\<close> is refused the
  \<^verbatim>\<open>catch\<close> block's \<^verbatim>\<open>updateJob(jobId, { status: 'failed' })\<close> finds no job to mark: the list,
  empty before the submission, is empty after it, and holds no failed job.
\<close>

theorem handleSubmit_upload_fails_counterexample:
  "s3UploadResponse putFailsEnv = Response False None \<and>
   jobs (jobList (handleSubmit someConfig putFailsEnv readyPage)) = [] \<and>
   effects (handleSubmit someConfig putFailsEnv readyPage) =
     [HttpPost ''/upload'', HttpPut ''https://bucket.example/signed'',
      Alert ''Failed to submit OCR request. Please try again.'']"
  by (simp add: handleSubmit_def putFailsEnv_def readyPage_def initialPage_def someConfig_def
      resolvedApiUrl_def submitUpload_def submitFailed_def emit_def updateJob_def Let_def)

text \<open>
  C5, amended: when the \<^verbatim>\<open>PUT\<close> to the signed URL fails (the request rejects or answers
  with a non-success status), no job is created. The only change to the job list is the
  update-by-id to failed on the fresh client id, which leaves a list that holds no job of
  that id as it was; the list keeps its length. The requests made are the upload-URL
  request and the \<^verbatim>\<open>PUT\<close>, no OCR request follows, no poll is started, the processing flag
  is cleared and the failure alert is shown.
\<close>

theorem handleSubmit_upload_fails:
  assumes "imageData st = Some img"
    and "truthyStr (resolvedApiUrl cfg)"
    and "uploadResponse env = Response True (Some ud)"
    and "atob env (img_base64 img) = Some bytes"
    and "s3UploadResponse env = NetworkError \<or> s3UploadResponse env = Response False b"
  shows "handleSubmit cfg env st =
       st\<lparr>jobList := updateJob (localJobId (now_id env)) failedUpdate (jobList st),
          isProcessing := False, jobStartTimeRef := Some (now_start env),
          effects := effects st @ [HttpPost ''/upload'', HttpPut (upload_url ud),
                                    Alert ''Failed to submit OCR request. Please try again.'']\<rparr> \<and>
     (list_all (\<lambda>j. job_id j \<noteq> localJobId (now_id env)) (jobs (jobList st)) \<longrightarrow>
        jobList (handleSubmit cfg env st) = jobList st) \<and>
     length (jobs (jobList (handleSubmit cfg env st))) = length (jobs (jobList st)) \<and>
     HttpPost ''/ocr'' \<notin> set (drop (length (effects st)) (effects (handleSubmit cfg env st))) \<and>
     inflight (handleSubmit cfg env st) = inflight st \<and>
     timers (handleSubmit cfg env st) = timers st"
proof -
  have eq: "handleSubmit cfg env st =
       st\<lparr>jobList := updateJob (localJobId (now_id env)) failedUpdate (jobList st),
          isProcessing := False, jobStartTimeRef := Some (now_start env),
          effects := effects st @ [HttpPost ''/upload'', HttpPut (upload_url ud),
                                    Alert ''Failed to submit OCR request. Please try again.'']\<rparr>"
    using assms
    by (auto simp add: handleSubmit_def submitUpload_def submitFailed_def emit_def Let_def
        failedUpdate_def)
  have len: "length (jobs (updateJob i u l)) = length (jobs l)" for i u l
    by (simp add: updateJob_def)
  show ?thesis
    unfolding eq using updateJob_absent [of "localJobId (now_id env)" "jobList st" failedUpdate]
    by (simp add: len)
qed

theorem handleSubmit_upload_fails_witness:
  "handleSubmit someConfig putFailsEnv readyPage =
     readyPage\<lparr>jobStartTimeRef := Some 1700000000000,
       effects := [HttpPost ''/upload'', HttpPut ''https://bucket.example/signed'',
                   Alert ''Failed to submit OCR request. Please try again.'']\<rparr> \<and>
   jobList (handleSubmit someConfig putFailsEnv readyPage) = \<lparr>jobs = [], currentJobId = None\<rparr> \<and>
   inflight (handleSubmit someConfig putFailsEnv readyPage) = []"
proof -
  have a: "imageData readyPage = Some \<lparr>img_base64 = Some ''iVBORw0KGgo='', img_filename = ''scan.png''\<rparr>"
    by (simp add: readyPage_def initialPage_def)
  have b: "truthyStr (resolvedApiUrl someConfig)"
    by (simp add: someConfig_def resolvedApiUrl_def)
  have c: "uploadResponse putFailsEnv = Response True (Some \<lparr>upload_url = ''https://bucket.example/signed'',
                                           s3_key = ''uploads/scan.png''\<rparr>)"
    by (simp add: putFailsEnv_def)
  have d: "atob putFailsEnv (img_base64 \<lparr>img_base64 = Some ''iVBORw0KGgo='', img_filename = ''scan.png''\<rparr>)
             = Some [137, 80, 78, 71]"
    by (simp add: putFailsEnv_def)
  have e: "s3UploadResponse putFailsEnv = NetworkError \<or> s3UploadResponse putFailsEnv = Response False None"
    by (simp add: putFailsEnv_def)
  show ?thesis
    using handleSubmit_upload_fails [OF a b c d e]
    by (simp add: readyPage_def initialPage_def putFailsEnv_def updateJob_def)
qed

subsection \<open>C7: the poll loop\<close>

lemma timers_setTimeoutPoll:
  "timers (setTimeoutPoll jobId d st) = timers st @ [(nextTimer st, jobId, d)]"
  by (simp add: setTimeoutPoll_def)

lemma inflight_setTimeoutPoll: "inflight (setTimeoutPoll jobId d st) = inflight st"
  by (simp add: setTimeoutPoll_def)

lemma settle_still_processing:
  "isStillProcessing resp \<Longrightarrow> pollJobStatus_settle resp now jobId st = setTimeoutPoll jobId 3000 st"
  by (auto simp add: isStillProcessing_def pollJobStatus_settle_def
      split: fetch_result.splits option.splits)

lemma settle_transient_error:
  "isTransientError resp \<Longrightarrow> pollJobStatus_settle resp now jobId st = setTimeoutPoll jobId 5000 st"
  by (auto simp add: isTransientError_def pollJobStatus_settle_def
      split: fetch_result.splits option.splits)

lemma settle_terminal:
  "isTerminal resp \<Longrightarrow>
   timers (pollJobStatus_settle resp now jobId st) = timers st \<and>
   inflight (pollJobStatus_settle resp now jobId st) = inflight st \<and>
   nextTimer (pollJobStatus_settle resp now jobId st) = nextTimer st"
  by (auto simp add: isTerminal_def pollJobStatus_settle_def emit_def
      split: fetch_result.splits option.splits)

lemma settle_timers_other:
  "timersFor j (pollJobStatus_settle resp now jobId st) =
     (if jobId = j \<and> \<not> isTerminal resp then timersFor j st @ [(nextTimer st, jobId, if isTransientError resp then 5000 else 3000)]
      else timersFor j st)"
  by (auto simp add: isTerminal_def isTransientError_def pollJobStatus_settle_def emit_def timersFor_def setTimeoutPoll_def
      split: fetch_result.splits option.splits)

lemma settle_inflight: "inflight (pollJobStatus_settle resp now jobId st) = inflight st"
  by (auto simp add: pollJobStatus_settle_def emit_def setTimeoutPoll_def
      split: fetch_result.splits option.splits)

lemma call_inflight:
  "inflight (pollJobStatus_call cfg jobId st) =
     (if truthyStr (resolvedApiUrl cfg) then inflight st @ [jobId] else inflight st)"
  by (simp add: pollJobStatus_call_def emit_def)

lemma call_timers: "timers (pollJobStatus_call cfg jobId st) = timers st"
  by (simp add: pollJobStatus_call_def emit_def)

lemma find_timer_job:
  assumes "List.find (\<lambda>t. fst t = h) ts = Some (h', j, d)"
  shows "(h', j, d) \<in> set ts"
  using assms by (induction ts) (auto split: if_splits)

lemma quietFor_step:
  assumes "quietFor j st" and "ev \<noteq> Poll j"
  shows "quietFor j (pollStep cfg st ev)"
proof (cases ev)
  case (Poll j')
  then show ?thesis using assms
    by (auto simp add: quietFor_def call_inflight timersFor_def call_timers)
next
  case (Settle j' resp now)
  show ?thesis
  proof (cases "j' \<in> set (inflight st)")
    case True
    then have ne: "j' \<noteq> j" using assms(1) by (auto simp add: quietFor_def)
    have "timersFor j (st\<lparr>inflight := remove1 j' (inflight st)\<rparr>) = timersFor j st"
      by (simp add: timersFor_def)
    then show ?thesis using assms(1) True ne Settle
      by (auto simp add: quietFor_def settle_inflight settle_timers_other dest: notin_set_remove1)
  next
    case False
    then show ?thesis using assms Settle by simp
  qed
next
  case (Fire h)
  show ?thesis
  proof (cases "List.find (\<lambda>t. fst t = h) (timers st)")
    case None
    then show ?thesis using assms Fire by simp
  next
    case (Some t)
    obtain h' j' d where t: "t = (h', j', d)" by (cases t) auto
    have "(h', j', d) \<in> set (timers st)" using Some t find_timer_job by fastforce
    then have ne: "j' \<noteq> j" using assms(1)
      by (auto simp add: quietFor_def timersFor_def filter_empty_conv)
    have "timersFor j (clearTimeout h st) = []"
      using assms(1) by (auto simp add: quietFor_def timersFor_def clearTimeout_def filter_empty_conv)
    moreover have "inflight (clearTimeout h st) = inflight st"
      by (simp add: clearTimeout_def)
    ultimately show ?thesis using assms(1) Fire Some t ne
      by (auto simp add: quietFor_def call_inflight timersFor_def call_timers)
  qed
next
  case Unmount
  have "timersFor j (clearTimeout h st) = []" for h
    using assms(1) by (auto simp add: quietFor_def timersFor_def clearTimeout_def filter_empty_conv)
  then show ?thesis using assms(1) Unmount
    by (auto simp add: quietFor_def timersFor_def clearTimeout_def split: option.splits)
qed

lemma quietFor_run:
  assumes "quietFor j st" and "Poll j \<notin> set evs"
  shows "quietFor j (pollRun cfg st evs)"
  using assms unfolding pollRun_def
  by (induction evs arbitrary: st) (auto simp add: quietFor_step)

lemma remove1_last_occurrence:
  "count_list xs j = 1 \<Longrightarrow> j \<notin> set (remove1 j xs)"
  by (induction xs) (auto simp add: count_list_0_iff split: if_splits)

lemma response_kinds:
  "(isTerminal resp \<or> isTransientError resp \<or> isStillProcessing resp) \<and>
   \<not> (isTerminal resp \<and> isTransientError resp) \<and>
   \<not> (isTerminal resp \<and> isStillProcessing resp) \<and>
   \<not> (isTransientError resp \<and> isStillProcessing resp)"
  by (auto simp add: isTerminal_def isTransientError_def isStillProcessing_def
      split: fetch_result.splits option.splits)

lemma find_fresh_handle:
  assumes "list_all (\<lambda>t. fst t < (n::nat)) ts"
  shows "List.find (\<lambda>t. fst t = n) (ts @ [(n, j, d)]) = Some (n, j, d)"
  using assms by (induction ts) auto

lemma filter_fresh_handle:
  assumes "list_all (\<lambda>t. fst t < (n::nat)) ts"
  shows "filter (\<lambda>t. fst t \<noteq> n) (ts @ [(n, j, d)]) = ts"
  using assms by (induction ts) auto

lemma fire_scheduled:
  assumes "handlesFresh st" and "truthyStr (resolvedApiUrl cfg)"
  shows "inflight (pollStep cfg (setTimeoutPoll jobId d st) (Fire (nextTimer st))) = inflight st @ [jobId] \<and>
         timers (pollStep cfg (setTimeoutPoll jobId d st) (Fire (nextTimer st))) = timers st"
  using assms find_fresh_handle [of "nextTimer st" "timers st" jobId d]
    filter_fresh_handle [of "nextTimer st" "timers st" jobId d]
  by (simp add: handlesFresh_def setTimeoutPoll_def call_inflight call_timers clearTimeout_def)

text \<open>The hypothesis on the timer handles holds in every state of a run from the mounted page.\<close>

lemma handlesFresh_settle:
  assumes "handlesFresh st"
  shows "handlesFresh (pollJobStatus_settle resp now jobId st)"
proof -
  have a: "handlesFresh (setTimeoutPoll jobId d st)" for d
    using assms by (auto simp add: handlesFresh_def setTimeoutPoll_def list_all_iff)
  have b: "handlesFresh (st\<lparr>jobList := l, jobStartTimeRef := r, isProcessing := p,
             processingJobId := q, step := s\<rparr>)" for l r p q s
    using assms by (simp add: handlesFresh_def)
  have c: "handlesFresh (emit e (st\<lparr>jobList := l, jobStartTimeRef := r, isProcessing := p,
             processingJobId := q\<rparr>))" for e l r p q
    using assms by (simp add: handlesFresh_def emit_def)
  show ?thesis
    by (simp add: pollJobStatus_settle_def a b c split: fetch_result.splits option.splits)
qed

lemma handlesFresh_step:
  assumes "handlesFresh st"
  shows "handlesFresh (pollStep cfg st ev)"
proof (cases ev)
  case (Poll j)
  then show ?thesis using assms
    by (simp add: handlesFresh_def pollJobStatus_call_def emit_def)
next
  case (Settle j resp now)
  have "handlesFresh (st\<lparr>inflight := q\<rparr>)" for q
    using assms by (simp add: handlesFresh_def)
  then show ?thesis using Settle assms handlesFresh_settle by simp
next
  case (Fire h)
  have "handlesFresh (clearTimeout h st)"
    using assms by (auto simp add: handlesFresh_def clearTimeout_def list_all_iff)
  then show ?thesis using Fire assms
    by (auto simp add: handlesFresh_def pollJobStatus_call_def emit_def split: option.splits)
next
  case Unmount
  have "handlesFresh (clearTimeout h st)" for h
    using assms by (auto simp add: handlesFresh_def clearTimeout_def list_all_iff)
  then show ?thesis using Unmount assms
    by (auto simp add: handlesFresh_def split: option.splits)
qed

lemma handlesFresh_run: "handlesFresh (pollRun cfg (initialPage js) evs)"
proof -
  have "handlesFresh st \<Longrightarrow> handlesFresh (foldl (pollStep cfg) st evs)" for st
    by (induction evs arbitrary: st) (simp_all add: handlesFresh_step)
  moreover have "handlesFresh (initialPage js)"
    by (simp add: handlesFresh_def initialPage_def)
  ultimately show ?thesis by (simp add: pollRun_def)
qed

text \<open>
  C7: settling a status request that reports a non-terminal status appends exactly one
  timeout of 3000 ms for the job; a transient error (the request rejects, a non-success
  HTTP status, an unreadable body) appends exactly one timeout of 5000 ms; when that
  timeout fires it issues exactly one status request and is gone. A response that reports
  completed or failed schedules nothing, and once the cycle of the job has ended so (its
  only pending request settled, no timeout of its own left) no request and no timeout for
  the job appears again, whatever happens on the page, unless \<^verbatim>\<open>pollJobStatus\<close> is called
  for the job anew.
\<close>

theorem pollJobStatus_schedule:
  "(isStillProcessing resp \<longrightarrow>
      timers (pollJobStatus_settle resp now jobId st) = timers st @ [(nextTimer st, jobId, 3000)]) \<and>
   (isTransientError resp \<longrightarrow>
      timers (pollJobStatus_settle resp now jobId st) = timers st @ [(nextTimer st, jobId, 5000)]) \<and>
   (\<not> isTerminal resp \<and> handlesFresh st \<and> truthyStr (resolvedApiUrl cfg) \<longrightarrow>
      inflight (pollStep cfg (pollJobStatus_settle resp now jobId st) (Fire (nextTimer st)))
        = inflight st @ [jobId] \<and>
      timers (pollStep cfg (pollJobStatus_settle resp now jobId st) (Fire (nextTimer st)))
        = timers st) \<and>
   (isTerminal resp \<longrightarrow>
      timers (pollJobStatus_settle resp now jobId st) = timers st \<and>
      inflight (pollJobStatus_settle resp now jobId st) = inflight st) \<and>
   (isTerminal resp \<and> count_list (inflight st) jobId = 1 \<and> timersFor jobId st = [] \<and>
      Poll jobId \<notin> set evs \<longrightarrow>
      quietFor jobId (pollRun cfg (pollStep cfg st (Settle jobId resp now)) evs))"
proof (intro conjI impI)
  assume "isStillProcessing resp"
  then show "timers (pollJobStatus_settle resp now jobId st) = timers st @ [(nextTimer st, jobId, 3000)]"
    by (simp add: settle_still_processing timers_setTimeoutPoll)
next
  assume "isTransientError resp"
  then show "timers (pollJobStatus_settle resp now jobId st) = timers st @ [(nextTimer st, jobId, 5000)]"
    by (simp add: settle_transient_error timers_setTimeoutPoll)
next
  assume h: "\<not> isTerminal resp \<and> handlesFresh st \<and> truthyStr (resolvedApiUrl cfg)"
  then obtain d where "pollJobStatus_settle resp now jobId st = setTimeoutPoll jobId d st"
    using response_kinds [of resp] settle_still_processing settle_transient_error by metis
  then show "inflight (pollStep cfg (pollJobStatus_settle resp now jobId st) (Fire (nextTimer st)))
        = inflight st @ [jobId]"
    and "timers (pollStep cfg (pollJobStatus_settle resp now jobId st) (Fire (nextTimer st)))
        = timers st"
    using h fire_scheduled by simp_all
next
  assume "isTerminal resp"
  then show "timers (pollJobStatus_settle resp now jobId st) = timers st"
    and "inflight (pollJobStatus_settle resp now jobId st) = inflight st"
    by (simp_all add: settle_terminal)
next
  assume h: "isTerminal resp \<and> count_list (inflight st) jobId = 1 \<and> timersFor jobId st = [] \<and>
      Poll jobId \<notin> set evs"
  then have mem: "jobId \<in> set (inflight st)"
    by (metis count_list_0_iff zero_neq_one)
  have "timersFor jobId (st\<lparr>inflight := remove1 jobId (inflight st)\<rparr>) = []"
    using h by (simp add: timersFor_def)
  then have "quietFor jobId (pollStep cfg st (Settle jobId resp now))"
    using h mem remove1_last_occurrence [of "inflight st" jobId]
    by (simp add: quietFor_def settle_inflight settle_timers_other)
  then show "quietFor jobId (pollRun cfg (pollStep cfg st (Settle jobId resp now)) evs)"
    using h quietFor_run by blast
qed

theorem pollJobStatus_schedule_witness:
  "timers (pollRun someConfig (initialPage []) [Poll ''7f3a'', Settle ''7f3a'' stillProcessing 1000])
     = [(1, ''7f3a'', 3000)] \<and>
   timers (pollRun someConfig (initialPage []) [Poll ''7f3a'', Settle ''7f3a'' NetworkError 1000])
     = [(1, ''7f3a'', 5000)] \<and>
   inflight (pollRun someConfig (initialPage [])
      [Poll ''7f3a'', Settle ''7f3a'' stillProcessing 1000, Fire 1]) = [''7f3a''] \<and>
   quietFor ''7f3a'' (pollRun someConfig (pollStep someConfig
      (pollStep someConfig (initialPage []) (Poll ''7f3a'')) (Settle ''7f3a'' reportsCompleted 1000))
      [Fire 1, Unmount, Settle ''7f3a'' stillProcessing 2000, Poll ''other''])"
proof -
  let ?st1 = "pollStep someConfig (initialPage []) (Poll ''7f3a'')"
  have infl: "inflight ?st1 = [''7f3a'']" and tm: "timers ?st1 = []" and nx: "nextTimer ?st1 = 1"
    by (simp_all add: initialPage_def someConfig_def pollJobStatus_call_def resolvedApiUrl_def emit_def)
  have fin: "isTerminal reportsCompleted"
    by (simp add: isTerminal_def reportsCompleted_def)
  have q: "quietFor ''7f3a'' (pollRun someConfig (pollStep someConfig ?st1 (Settle ''7f3a'' reportsCompleted 1000))
      [Fire 1, Unmount, Settle ''7f3a'' stillProcessing 2000, Poll ''other''])"
    using pollJobStatus_schedule [of reportsCompleted 1000 "''7f3a''" ?st1 someConfig
        "[Fire 1, Unmount, Settle ''7f3a'' stillProcessing 2000, Poll ''other'']"]
      fin infl tm
    by (simp add: timersFor_def)
  have a: "timers (pollRun someConfig (initialPage []) [Poll ''7f3a'', Settle ''7f3a'' stillProcessing 1000])
     = [(1, ''7f3a'', 3000)]"
    using pollJobStatus_schedule [of stillProcessing 1000 "''7f3a''" "?st1\<lparr>inflight := []\<rparr>" someConfig "[]"]
      infl tm nx
    by (simp add: pollRun_def isStillProcessing_def stillProcessing_def)
  have b: "timers (pollRun someConfig (initialPage []) [Poll ''7f3a'', Settle ''7f3a'' NetworkError 1000])
     = [(1, ''7f3a'', 5000)]"
    using pollJobStatus_schedule [of NetworkError 1000 "''7f3a''" "?st1\<lparr>inflight := []\<rparr>" someConfig "[]"]
      infl tm nx
    by (simp add: pollRun_def isTransientError_def)
  have c: "inflight (pollRun someConfig (initialPage [])
      [Poll ''7f3a'', Settle ''7f3a'' stillProcessing 1000, Fire 1]) = [''7f3a'']"
    by (simp add: pollRun_def initialPage_def someConfig_def pollJobStatus_call_def
      resolvedApiUrl_def emit_def stillProcessing_def pollJobStatus_settle_def
      setTimeoutPoll_def clearTimeout_def)
  show ?thesis using a b c q by simp
qed

subsection \<open>The hook cancels before it schedules\<close>

lemma oneInterval_stopPolling:
  "oneInterval st \<Longrightarrow> intervals (stopPolling st) = [] \<and> intervalRef (stopPolling st) = None"
  by (auto simp add: oneInterval_def stopPolling_def Let_def split: option.splits)

lemma stopPolling_keeps: "oneInterval st \<Longrightarrow> oneInterval (stopPolling st)"
  using oneInterval_stopPolling [of st] by (simp add: oneInterval_def)

lemma pollStatus_call_intervals:
  "intervals (pollStatus_call a st) = intervals st \<and> intervalRef (pollStatus_call a st) = intervalRef st
   \<and> nextInterval (pollStatus_call a st) = nextInterval st"
  by (simp add: pollStatus_call_def split: option.splits)

lemma pollStatus_call_keeps: "oneInterval st \<Longrightarrow> oneInterval (pollStatus_call a st)"
  by (simp add: oneInterval_def pollStatus_call_intervals split: option.splits)

lemma countRetry_keeps: "oneInterval st \<Longrightarrow> oneInterval (countRetry opts msg st)"
proof -
  assume a: "oneInterval st"
  have "oneInterval (st\<lparr>retriesRef := retriesRef st + 1\<rparr>)"
    using a by (simp add: oneInterval_def split: option.splits)
  moreover have "oneInterval (st\<lparr>retriesRef := retriesRef st + 1, h_error := Some msg, h_status := HookFailed\<rparr>)"
    using a by (simp add: oneInterval_def split: option.splits)
  ultimately show ?thesis
    using stopPolling_keeps by (simp add: countRetry_def Let_def)
qed

lemma pollStatus_settle_keeps: "oneInterval st \<Longrightarrow> oneInterval (pollStatus_settle opts resp st)"
proof -
  assume a: "oneInterval st"
  have b: "oneInterval (st\<lparr>h_result := r, h_status := s\<rparr>)" for r s
    using a by (simp add: oneInterval_def split: option.splits)
  have c: "oneInterval (st\<lparr>h_error := e, h_status := s\<rparr>)" for e s
    using a by (simp add: oneInterval_def split: option.splits)
  show ?thesis
    using a b c countRetry_keeps stopPolling_keeps
    by (simp add: pollStatus_settle_def split: fetch_result.splits option.splits)
qed

lemma startPolling_single:
  assumes "oneInterval st"
  shows "intervals (startPolling opts a jobId st) = [(nextInterval st, pollingInterval opts)] \<and>
         intervalRef (startPolling opts a jobId st) = Some (nextInterval st)"
proof -
  have n: "nextInterval (stopPolling st) = nextInterval st"
    by (simp add: stopPolling_def Let_def split: option.splits)
  show ?thesis
    using oneInterval_stopPolling [OF assms] n
    by (simp add: startPolling_def Let_def pollStatus_call_intervals)
qed

lemma hookStep_keeps:
  assumes "oneInterval st" and "nextInterval st \<noteq> 0"
  shows "oneInterval (hookStep opts a st ev) \<and> nextInterval (hookStep opts a st ev) \<noteq> 0"
proof (cases ev)
  case (StartPolling jobId)
  then show ?thesis
    using startPolling_single [OF assms(1), of opts a jobId] assms(2)
    by (simp add: oneInterval_def startPolling_def Let_def)
next
  case StopPolling
  then show ?thesis using stopPolling_keeps [OF assms(1)] assms(2)
    by (simp add: stopPolling_def Let_def split: option.splits)
next
  case (Tick h)
  then show ?thesis using pollStatus_call_keeps [OF assms(1)] assms
    by (simp add: pollStatus_call_intervals)
next
  case (HookSettle resp)
  have n: "nextInterval (stopPolling s) = nextInterval s" for s
    by (simp add: stopPolling_def Let_def split: option.splits)
  have m: "nextInterval (countRetry opts msg s) = nextInterval s" for msg s
    by (simp add: countRetry_def Let_def n)
  have k: "nextInterval (pollStatus_settle opts resp s) = nextInterval s" for s
    by (simp add: pollStatus_settle_def n m split: fetch_result.splits option.splits)
  have "oneInterval (st\<lparr>h_inflight := q\<rparr>)" for q
    using assms(1) by (simp add: oneInterval_def split: option.splits)
  then show ?thesis using HookSettle assms pollStatus_settle_keeps
    by (simp add: k split: list.splits)
qed

lemma hookRun_keeps:
  assumes "oneInterval st" and "nextInterval st \<noteq> 0"
  shows "oneInterval (hookRun opts a st evs) \<and> nextInterval (hookRun opts a st evs) \<noteq> 0"
  using assms unfolding hookRun_def
proof (induction evs arbitrary: st)
  case Nil
  then show ?case by simp
next
  case (Cons ev evs)
  then show ?case using hookStep_keeps [of st opts a ev] by simp
qed

text \<open>
  The hook's way of starting a poll cycle, for comparison with the page: \<^verbatim>\<open>startPolling\<close>
  calls \<^verbatim>\<open>stopPolling\<close> first, which clears the interval the ref remembers. In every state
  the hook reaches the interval table has at most one entry, and after \<^verbatim>\<open>startPolling\<close> it
  holds exactly the new interval.
\<close>

theorem startPolling_cancels_first:
  "length (intervals (hookRun opts a initialHook evs)) \<le> 1 \<and>
   intervals (startPolling opts a jobId (hookRun opts a initialHook evs))
     = [(nextInterval (hookRun opts a initialHook evs), pollingInterval opts)]"
proof -
  have i: "oneInterval initialHook" "nextInterval initialHook \<noteq> 0"
    by (simp_all add: oneInterval_def initialHook_def)
  have o: "oneInterval (hookRun opts a initialHook evs)"
    using hookRun_keeps [OF i] by simp
  then have "length (map fst (intervals (hookRun opts a initialHook evs))) \<le> 1"
    by (auto simp add: oneInterval_def split: option.splits)
  then show ?thesis
    using startPolling_single [OF o] by simp
qed

subsection \<open>C4: one poll cycle at a time\<close>

text \<open>
  \<^verbatim>\<open>pollJobStatus\<close> itself clears no timeout before it schedules the next one, and
  \<^verbatim>\<open>pollTimeoutRef\<close> remembers only the last handle: were it called twice for one job id, with
  both requests reporting a non-terminal status, two timeouts would be scheduled for that
  id. The page never calls it so, as the lemmas after this one show.
\<close>

lemma pollJobStatus_clears_nothing:
  "timersFor ''7f3a''
     (pollRun someConfig (initialPage [])
        [Poll ''7f3a'', Poll ''7f3a'', Settle ''7f3a'' stillProcessing 1000,
         Settle ''7f3a'' stillProcessing 1001])
     = [(1, ''7f3a'', 3000), (2, ''7f3a'', 3000)] \<and>
   timersFor ''7f3a''
     (pollRun someConfig (initialPage [])
        [Poll ''7f3a'', Poll ''7f3a'', Settle ''7f3a'' stillProcessing 1000,
         Settle ''7f3a'' stillProcessing 1001, Unmount])
     = [(1, ''7f3a'', 3000)]"
  by (simp add: pollRun_def initialPage_def someConfig_def pollJobStatus_call_def
      resolvedApiUrl_def emit_def stillProcessing_def pollJobStatus_settle_def
      setTimeoutPoll_def timersFor_def clearTimeout_def)

lemma submitFailed_poll:
  "timers (submitFailed j st) = timers st \<and> inflight (submitFailed j st) = inflight st \<and>
   \<not> isProcessing (submitFailed j st)"
  by (simp add: submitFailed_def emit_def)

lemma singleCycle_submit:
  assumes "singleCycle st" and "\<not> isProcessing st"
  shows "singleCycle (handleSubmit cfg env st)"
proof -
  have e: "timers st = []" "inflight st = []"
    using assms by (auto simp add: singleCycle_def)
  have f: "singleCycle (submitFailed j s)" if "timers s = []" "inflight s = []" for j s
    using that by (simp add: singleCycle_def submitFailed_poll)
  have c: "singleCycle (pollJobStatus_call cfg j s)" if "timers s = []" "inflight s = []" "isProcessing s" for j s
    using that by (simp add: singleCycle_def pollJobStatus_call_def emit_def)
  have r: "singleCycle (submitRequest cfg env j img ud s)"
    if "timers s = []" "inflight s = []" "isProcessing s" for j img ud s
    using that
    by (auto simp add: submitRequest_def Let_def emit_def intro!: f c
        split: fetch_result.splits option.splits)
  have u: "singleCycle (submitUpload cfg env j img ud s)"
    if "timers s = []" "inflight s = []" "isProcessing s" for j img ud s
    using that
    by (auto simp add: submitUpload_def Let_def emit_def intro!: f r
        split: fetch_result.splits option.splits)
  show ?thesis
    using assms(1) e
    by (auto simp add: handleSubmit_def Let_def emit_def intro!: f u
        split: fetch_result.splits option.splits)
qed

lemma handleFileSelect_poll:
  "timers (handleFileSelect env f st) = timers st \<and>
   inflight (handleFileSelect env f st) = inflight st \<and>
   isProcessing (handleFileSelect env f st) = isProcessing st"
  by (simp add: handleFileSelect_def emit_def Let_def split: option.splits)

lemma singleCycle_settle:
  assumes "singleCycle st"
  shows "singleCycle (pollStep cfg st (Settle j resp now))"
proof (cases "j \<in> set (inflight st)")
  case False
  then show ?thesis using assms by simp
next
  case True
  then have i: "inflight st = [j]" and t: "timers st = []" and p: "isProcessing st"
    using assms by (cases "inflight st"; auto simp add: singleCycle_def)+
  show ?thesis
  proof (cases "isTerminal resp")
    case True
    then show ?thesis using i t
      by (auto simp add: singleCycle_def isTerminal_def pollJobStatus_settle_def emit_def
          split: fetch_result.splits option.splits)
  next
    case False
    then obtain d where "pollJobStatus_settle resp now j (st\<lparr>inflight := remove1 j (inflight st)\<rparr>)
          = setTimeoutPoll j d (st\<lparr>inflight := remove1 j (inflight st)\<rparr>)"
      using response_kinds [of resp] settle_still_processing settle_transient_error by metis
    then show ?thesis using i t p True
      by (simp add: singleCycle_def setTimeoutPoll_def)
  qed
qed

lemma singleCycle_fire:
  assumes "singleCycle st"
  shows "singleCycle (pollStep cfg st (Fire h))"
proof (cases "List.find (\<lambda>t. fst t = h) (timers st)")
  case None
  then show ?thesis using assms by simp
next
  case (Some t)
  obtain h' j d where t: "t = (h', j, d)" by (cases t) auto
  have m: "(h', j, d) \<in> set (timers st)" and hh: "h' = h"
    using Some t find_in_set [of "\<lambda>t. fst t = h" "timers st" t] by auto
  then have ts: "timers st = [(h, j, d)]" and i: "inflight st = []" and p: "isProcessing st"
    using assms by (cases "timers st"; auto simp add: singleCycle_def)+
  show ?thesis using Some t ts i p
    by (simp add: singleCycle_def pollJobStatus_call_def emit_def clearTimeout_def)
qed

lemma singleCycle_unmount:
  assumes "singleCycle st"
  shows "singleCycle (pollStep cfg st Unmount)"
proof -
  from assms have a: "length (timers st) + length (inflight st) \<le> 1"
    and b: "isProcessing st \<or> (timers st = [] \<and> inflight st = [])"
    by (simp_all add: singleCycle_def)
  have c: "length (filter P (timers st)) + length (inflight st) \<le> 1" for P
    using a length_filter_le [of P "timers st"] by linarith
  have d: "isProcessing st \<or> (filter P (timers st) = [] \<and> inflight st = [])" for P
    using b by auto
  have "singleCycle (clearTimeout h st)" for h
    using c d by (simp add: singleCycle_def clearTimeout_def)
  then show ?thesis using assms
    by (auto simp add: singleCycle_def split: option.splits)
qed

lemma fetchJobResult_settle_poll:
  "timers (fetchJobResult_settle j resp st) = timers st \<and>
   inflight (fetchJobResult_settle j resp st) = inflight st \<and>
   isProcessing (fetchJobResult_settle j resp st) = isProcessing st"
  by (simp add: fetchJobResult_settle_def split: option.splits)

lemma currentJobEffect_poll:
  "timers (page (currentJobEffect cfg tok u)) = timers (page u) \<and>
   inflight (page (currentJobEffect cfg tok u)) = inflight (page u) \<and>
   isProcessing (page (currentJobEffect cfg tok u)) = isProcessing (page u)"
  by (simp add: currentJobEffect_def fetchJobResult_call_def emit_def split: option.splits)

lemma singleCycle_cong:
  "timers st' = timers st \<Longrightarrow> inflight st' = inflight st \<Longrightarrow> isProcessing st' = isProcessing st \<Longrightarrow>
   singleCycle st \<Longrightarrow> singleCycle st'"
  by (simp add: singleCycle_def)

lemma singleCycle_event:
  assumes "singleCycle (page u)"
  shows "singleCycle (page (uiEvent cfg tok u ev))"
proof (cases ev)
  case (ClickSubmit env)
  then show ?thesis using assms singleCycle_submit by simp
next
  case (SelectFile env f)
  then show ?thesis using assms by (simp add: singleCycle_def handleFileSelect_poll)
next
  case (ViewJob i)
  then show ?thesis using assms by (simp add: singleCycle_def)
next
  case (JobsListed resp)
  then show ?thesis using assms by (simp add: singleCycle_def)
next
  case (ResultFetched j resp)
  then show ?thesis using assms by (simp add: singleCycle_def fetchJobResult_settle_poll)
next
  case (Settled j resp now)
  then show ?thesis using assms singleCycle_settle by simp
next
  case (TimerFires h)
  then show ?thesis using assms singleCycle_fire by simp
next
  case Unmounted
  then show ?thesis using assms singleCycle_unmount by simp
qed

lemma singleCycle_step:
  assumes "singleCycle (page u)"
  shows "singleCycle (page (uiStep cfg tok u ev))"
proof -
  have e: "singleCycle (page (uiEvent cfg tok u ev))"
    using assms by (rule singleCycle_event)
  have "singleCycle (page (currentJobEffect cfg tok (uiEvent cfg tok u ev)))"
    using currentJobEffect_poll [of cfg tok "uiEvent cfg tok u ev"] e
    by (simp add: singleCycle_def)
  then show ?thesis using e by (simp add: uiStep_def Let_def)
qed

lemma singleCycle_run: "singleCycle (page (uiRun cfg tok (initialUi js) evs))"
proof -
  have "singleCycle (page u) \<Longrightarrow> singleCycle (page (foldl (uiStep cfg tok) u evs))" for u
    by (induction evs arbitrary: u) (simp_all add: singleCycle_step)
  moreover have "singleCycle (page (initialUi js))"
    by (simp add: singleCycle_def initialUi_def initialPage_def)
  ultimately show ?thesis by (simp add: uiRun_def)
qed

text \<open>
  C4: in every state the page reaches through its own events (clicks on the submit button,
  which is disabled while a job is being processed; file selections; clicks on the history;
  job listings; responses to \<^verbatim>\<open>fetchJobResult\<close>; settled status requests of the poll loop;
  fired timeouts; the unmount cleanup; with the effect on the current job after each of
  them) at most one poll timeout is scheduled, so at most one per job id, and none while a
  request of \<^verbatim>\<open>pollJobStatus\<close> is pending. A poll cycle is started by \<^verbatim>\<open>handleSubmit\<close> alone,
  which is reached only while the processing flag is down, and then no timeout and no
  request of the poll loop is outstanding: there is nothing left to cancel. In the hook
  \<^verbatim>\<open>useOcrResult\<close> a poll cycle is started by \<^verbatim>\<open>startPolling\<close>, which calls \<^verbatim>\<open>stopPolling\<close>
  first: in every state the hook reaches at most one interval runs, and right after
  \<^verbatim>\<open>startPolling\<close> it is the new one.
\<close>

theorem poll_single_timer:
  "length (timersFor jobId (page (uiRun cfg idToken (initialUi js) evs))) \<le> 1 \<and>
   length (timers (page (uiRun cfg idToken (initialUi js) evs)))
     + length (inflight (page (uiRun cfg idToken (initialUi js) evs))) \<le> 1 \<and>
   (\<not> isProcessing (page (uiRun cfg idToken (initialUi js) evs)) \<longrightarrow>
      timers (page (uiRun cfg idToken (initialUi js) evs)) = [] \<and>
      inflight (page (uiRun cfg idToken (initialUi js) evs)) = []) \<and>
   length (intervals (hookRun opts a initialHook hevs)) \<le> 1 \<and>
   intervals (startPolling opts a hookJobId (hookRun opts a initialHook hevs))
     = [(nextInterval (hookRun opts a initialHook hevs), pollingInterval opts)]"
proof -
  let ?st = "page (uiRun cfg idToken (initialUi js) evs)"
  have s: "singleCycle ?st" by (rule singleCycle_run)
  then have b: "length (timers ?st) + length (inflight ?st) \<le> 1"
    by (simp add: singleCycle_def)
  have "length (timersFor jobId ?st) \<le> length (timers ?st)"
    by (simp add: timersFor_def)
  then have c: "length (timersFor jobId ?st) \<le> 1" using b by linarith
  have d: "\<not> isProcessing ?st \<longrightarrow> timers ?st = [] \<and> inflight ?st = []"
    using s by (auto simp add: singleCycle_def)
  have i: "oneInterval initialHook" "nextInterval initialHook \<noteq> 0"
    by (simp_all add: oneInterval_def initialHook_def)
  have o: "oneInterval (hookRun opts a initialHook hevs)"
    using hookRun_keeps [OF i] by simp
  then have "length (map fst (intervals (hookRun opts a initialHook hevs))) \<le> 1"
    by (auto simp add: oneInterval_def split: option.splits)
  then have e: "length (intervals (hookRun opts a initialHook hevs)) \<le> 1" by simp
  have f: "intervals (startPolling opts a hookJobId (hookRun opts a initialHook hevs))
     = [(nextInterval (hookRun opts a initialHook hevs), pollingInterval opts)]"
    using startPolling_single [OF o] by simp
  show ?thesis by (intro conjI c b d e f)
qed

theorem poll_single_timer_witness:
  "timers (page (uiRun someConfig someToken (initialUi [])
            [SelectFile pngFileEnv pngFile, ClickSubmit acceptedEnv, ClickSubmit acceptedEnv,
             Settled ''7f3a'' stillProcessing 1700000003000]))
     = [(1, ''7f3a'', 3000)] \<and>
   \<not> isProcessing (page (uiRun someConfig someToken (initialUi [])
            [SelectFile pngFileEnv pngFile, ClickSubmit acceptedEnv,
             Settled ''7f3a'' completedWithoutResult 1700000003000])) \<and>
   resultFetches (uiRun someConfig someToken (initialUi [])
            [SelectFile pngFileEnv pngFile, ClickSubmit acceptedEnv,
             Settled ''7f3a'' completedWithoutResult 1700000003000])
     = [''7f3a''] \<and>
   effects (page (uiRun someConfig someToken (initialUi [])
            [SelectFile pngFileEnv pngFile, ClickSubmit acceptedEnv,
             Settled ''7f3a'' completedWithoutResult 1700000003000]))
     = [HttpPost ''/upload'', HttpPut ''https://bucket.example/signed'', HttpPost ''/ocr'',
        HttpGet ''/ocr/7f3a'', HttpGet ''/ocr/7f3a''] \<and>
   timers (page (uiRun someConfig someToken (initialUi [])
            [SelectFile pngFileEnv pngFile, ClickSubmit acceptedEnv,
             Settled ''7f3a'' completedWithoutResult 1700000003000]))
     = [] \<and>
   inflight (page (uiRun someConfig someToken (initialUi [])
            [SelectFile pngFileEnv pngFile, ClickSubmit acceptedEnv,
             Settled ''7f3a'' completedWithoutResult 1700000003000]))
     = [] \<and>
   intervals (hookRun defaultHookOptions True initialHook [StartPolling ''7f3a'', StartPolling ''7f3a''])
     = [(2, 3000)]"
proof -
  let ?A = "[SelectFile pngFileEnv pngFile, ClickSubmit acceptedEnv, ClickSubmit acceptedEnv,
             Settled ''7f3a'' stillProcessing 1700000003000]"
  let ?B = "[SelectFile pngFileEnv pngFile, ClickSubmit acceptedEnv,
             Settled ''7f3a'' completedWithoutResult 1700000003000]"
  note defs = uiRun_def uiStep_def initialUi_def initialPage_def someConfig_def someToken_def
    pngFileEnv_def pngFile_def acceptedEnv_def putFailsEnv_def handleFileSelect_def
    MAX_FILE_SIZE_def handleSubmit_def submitUpload_def submitRequest_def newJob_def
    resolvedApiUrl_def emit_def Let_def pollJobStatus_call_def pollJobStatus_settle_def
    setTimeoutPoll_def jsIndex_def currentJobDeps_def currentJob_def findById_def findJob_def
    currentJobEffect_def fetchJobResult_call_def addJob_def replaceJobId_def updateJob_def
    applyUpdates_def noUpdates_def elapsed_def
  have t: "timers (page (uiRun someConfig someToken (initialUi []) ?A)) = [(1, ''7f3a'', 3000)]"
    by (simp add: defs stillProcessing_def)
  have p: "\<not> isProcessing (page (uiRun someConfig someToken (initialUi []) ?B))"
    by (simp add: defs completedWithoutResult_def)
  have r: "resultFetches (uiRun someConfig someToken (initialUi []) ?B) = [''7f3a'']"
    by (simp add: defs completedWithoutResult_def)
  have g: "effects (page (uiRun someConfig someToken (initialUi []) ?B))
     = [HttpPost ''/upload'', HttpPut ''https://bucket.example/signed'', HttpPost ''/ocr'',
        HttpGet ''/ocr/7f3a'', HttpGet ''/ocr/7f3a'']"
    by (simp add: defs completedWithoutResult_def)
  have h: "intervals (hookRun defaultHookOptions True initialHook
                       [StartPolling ''7f3a'', StartPolling ''7f3a'']) = [(2, 3000)]"
    using poll_single_timer [of "''7f3a''" someConfig someToken "[]" ?B defaultHookOptions True
        "[StartPolling ''7f3a'']" "''7f3a''"]
    by (simp add: hookRun_def initialHook_def startPolling_def stopPolling_def
        pollStatus_call_def defaultHookOptions_def Let_def)
  have q: "timers (page (uiRun someConfig someToken (initialUi []) ?B)) = [] \<and>
           inflight (page (uiRun someConfig someToken (initialUi []) ?B)) = []"
    using poll_single_timer [of "''7f3a''" someConfig someToken "[]" ?B defaultHookOptions True
        "[StartPolling ''7f3a'']" "''7f3a''"] p
    by blast
  show ?thesis using t p r g q h by simp
qed

subsection \<open>C6: results and statuses in the job list\<close>








subsection \<open>C3: redistribution of multi-line content\<close>

text \<open>The example of the specification: two blocks of group 1, the second one empty.\<close>

lemma processBlocks_spec_example:
  "map block_content
     (processBlocks [textBlock 0 1 (''line1'' @ [CHR 0x0A] @ ''line2''), textBlock 1 1 ''''])
     = [''line1'', ''line2'']"
  by (simp add: processBlocks_def groupMap_def distributeGroup_def textBlock_def hasContent_def
      trim_def isWhiteSpace_def contentLines_def)

lemma groupMap_snoc:
  "groupMap (bs @ [b]) = groupMapAdd (groupMap bs) (group_id b) (length bs)"
  by (simp add: groupMap_def enumerate_append_eq)

lemma map_of_groupMapAdd:
  "map_of (groupMapAdd m g i) =
     (map_of m)(g \<mapsto> (case map_of m g of None \<Rightarrow> [i] | Some js \<Rightarrow> js @ [i]))"
  by (induction m g i rule: groupMapAdd.induct) (auto simp add: fun_eq_iff)

lemma keys_groupMapAdd:
  "set (map fst (groupMapAdd m g i)) = insert g (set (map fst m))"
  by (induction m g i rule: groupMapAdd.induct) auto

lemma distinct_groupMapAdd:
  "distinct (map fst m) \<Longrightarrow> distinct (map fst (groupMapAdd m g i))"
proof (induction m g i rule: groupMapAdd.induct)
  case (1 g idx)
  then show ?case by simp
next
  case (2 k js m g idx)
  then show ?case using keys_groupMapAdd [of m g idx] by auto
qed

lemma groupIndices_snoc:
  "groupIndices g (bs @ [b]) =
     groupIndices g bs @ (if group_id b = g then [length bs] else [])"
proof -
  have "filter (\<lambda>i. group_id ((bs @ [b]) ! i) = g) [0..<length bs]
        = filter (\<lambda>i. group_id (bs ! i) = g) [0..<length bs]"
    by (rule filter_cong) (auto simp add: nth_append)
  then show ?thesis by (simp add: groupIndices_def)
qed

lemma groupMap_lookup:
  "distinct (map fst (groupMap bs)) \<and>
   (\<forall>g. map_of (groupMap bs) g =
      (if groupIndices g bs = [] then None else Some (groupIndices g bs)))"
proof (induction bs rule: rev_induct)
  case Nil
  then show ?case by (simp add: groupMap_def groupIndices_def)
next
  case (snoc b bs)
  then show ?case
    by (auto simp add: groupMap_snoc distinct_groupMapAdd map_of_groupMapAdd groupIndices_snoc)
qed

lemma groupMap_entry:
  assumes "(g, js) \<in> set (groupMap bs)"
  shows "js = groupIndices g bs"
proof -
  have d: "distinct (map fst (groupMap bs))"
    using groupMap_lookup [of bs] by simp
  have "map_of (groupMap bs) g = Some js"
    by (rule map_of_is_SomeI [OF d assms])
  then show ?thesis
    using groupMap_lookup [of bs] by (auto split: if_splits)
qed

lemma groupMap_has_entry:
  assumes "groupIndices g bs \<noteq> []"
  shows "(g, groupIndices g bs) \<in> set (groupMap bs)"
  using assms groupMap_lookup [of bs] by (simp add: map_of_SomeD)

lemma groupIndices_props:
  "distinct (groupIndices g bs) \<and> (\<forall>i\<in>set (groupIndices g bs). i < length bs \<and> group_id (bs ! i) = g)"
  by (simp add: groupIndices_def)


lemma length_assignLines: "length (assignLines ls es bs) = length bs"
  by (induction ls es bs rule: assignLines.induct) auto

lemma assignLines_nth:
  assumes "distinct es" and "i < length bs"
  shows "assignLines ls es bs ! i =
     (case map_of (zip es ls) i of
        None \<Rightarrow> bs ! i
      | Some l \<Rightarrow> (bs ! i)\<lparr>block_content := l\<rparr>)"
  using assms
proof (induction ls es bs rule: assignLines.induct)
  case (1 line ls e es bs)
  have notin: "map_of (zip es ls) e = None"
    using "1.prems"(1) by (auto simp add: map_of_eq_None_iff dest: set_zip_leftD)
  show ?case
  proof (cases "i = e")
    case True
    then show ?thesis using 1 notin by simp
  next
    case False
    then show ?thesis using 1 by (simp split: option.splits)
  qed
qed simp_all

lemma length_distributeGroup: "length (distributeGroup js pb) = length pb"
  by (simp add: distributeGroup_def Let_def length_assignLines split: option.splits list.splits)

lemma distributeGroup_outside:
  assumes "i \<notin> set js" and "i < length pb" and "distinct js"
  shows "distributeGroup js pb ! i = pb ! i"
proof -
  have z: "map_of (zip (filter Q js) ls) i = None" for Q ls
    using assms(1) by (auto simp add: map_of_eq_None_iff dest: set_zip_leftD)
  have d: "distinct (filter Q js)" for Q
    using assms(3) by simp
  show ?thesis
  proof (cases "List.find (\<lambda>idx. hasContent (block_content (pb ! idx))) js")
    case None
    then show ?thesis by (simp add: distributeGroup_def)
  next
    case (Some b)
    then have "b \<noteq> i" using find_in_set assms(1) by fastforce
    then show ?thesis
      using Some assms(2)
      by (simp add: distributeGroup_def Let_def assignLines_nth [OF d] z split: list.splits)
  qed
qed

lemma distributeGroup_agree:
  assumes "\<forall>k\<in>set js. pb ! k = pb' ! k" and "length pb = length pb'" and "distinct js"
    and "i \<in> set js" and "i < length pb"
  shows "distributeGroup js pb ! i = distributeGroup js pb' ! i"
proof -
  let ?P = "\<lambda>p idx. hasContent (block_content (p ! idx))"
  have f: "List.find (?P pb) js = List.find (?P pb') js"
    using assms(1) by (intro find_cong) auto
  show ?thesis
  proof (cases "List.find (?P pb) js")
    case None
    then show ?thesis using f assms(1,4) by (simp add: distributeGroup_def)
  next
    case (Some b)
    then have bin: "b \<in> set js" using find_in_set by fastforce
    then have c: "pb ! b = pb' ! b" using assms(1) by simp
    let ?E = "\<lambda>p. filter (\<lambda>idx. idx \<noteq> b \<and> \<not> hasContent (block_content (p ! idx))) js"
    have e: "?E pb = ?E pb'"
      using assms(1) by (intro filter_cong) auto
    have d: "distinct (?E pb')" using assms(3) by simp
    have u: "pb[b := x] ! i = pb'[b := x] ! i" for x
      using assms(1,2,4,5) by (cases "i = b") auto
    have li: "i < length (pb[b := x])" "i < length (pb'[b := x])" for x
      using assms(2,5) by simp_all
    show ?thesis
      using Some f c e assms(1,4)
      by (simp add: distributeGroup_def Let_def assignLines_nth [OF d li(1)] assignLines_nth [OF d li(2)] u
          split: list.splits option.splits)
  qed
qed


lemma distributeAll_Cons:
  "distributeAll ((g, js) # gs) pb = distributeAll gs (distributeGroup js pb)"
  by (simp add: distributeAll_def)

lemma length_distributeAll: "length (distributeAll gs pb) = length pb"
  by (induction gs arbitrary: pb) (auto simp add: distributeAll_def length_distributeGroup)

lemma distributeAll_outside:
  assumes "\<forall>(g, js)\<in>set gs. distinct js \<and> i \<notin> set js" and "i < length pb"
  shows "distributeAll gs pb ! i = pb ! i"
  using assms
proof (induction gs arbitrary: pb)
  case Nil
  then show ?case by (simp add: distributeAll_def)
next
  case (Cons a gs)
  obtain g js where a: "a = (g, js)" by (cases a) auto
  have "distributeAll gs (distributeGroup js pb) ! i = distributeGroup js pb ! i"
    using Cons by (simp add: length_distributeGroup)
  then show ?case
    using Cons.prems a distributeGroup_outside [of i js pb]
    by (simp add: distributeAll_Cons)
qed

lemma distributeAll_group:
  assumes "distinct (map fst gs)"
    and "\<forall>(g, js)\<in>set gs. js = groupIndices g bs"
    and "length pb = length bs"
    and "(g, js) \<in> set gs" and "i \<in> set js"
  shows "distributeAll gs pb ! i = distributeGroup js pb ! i"
  using assms
proof (induction gs arbitrary: pb)
  case Nil
  then show ?case by simp
next
  case (Cons a gs)
  obtain g0 js0 where a: "a = (g0, js0)" by (cases a) auto
  have js: "js = groupIndices g bs" and js0: "js0 = groupIndices g0 bs"
    using Cons.prems(2,4) a by auto
  have ilen: "i < length pb"
    using Cons.prems(3,5) js groupIndices_props [of g bs] by simp
  have gi: "group_id (bs ! i) = g"
    using Cons.prems(5) js groupIndices_props [of g bs] by simp
  show ?case
  proof (cases "(g, js) = (g0, js0)")
    case True
    have "\<forall>(g', js')\<in>set gs. distinct js' \<and> i \<notin> set js'"
    proof (clarify, rule conjI)
      fix g' js' assume m: "(g', js') \<in> set gs"
      then have e: "js' = groupIndices g' bs" using Cons.prems(2) by auto
      then show "distinct js'" using groupIndices_props by simp
      have "g' \<noteq> g0" using Cons.prems(1) a m by force
      then show "i \<notin> set js'" using e gi True groupIndices_props [of g' bs] by auto
    qed
    then have "distributeAll gs (distributeGroup js0 pb) ! i = distributeGroup js0 pb ! i"
      using distributeAll_outside ilen by (simp add: length_distributeGroup)
    then show ?thesis using True a by (simp add: distributeAll_Cons)
  next
    case False
    then have m: "(g, js) \<in> set gs" using Cons.prems(4) a by auto
    then have ne: "g \<noteq> g0" using Cons.prems(1) a by force
    have disj: "\<forall>k\<in>set js. k \<notin> set js0"
      using js js0 ne groupIndices_props [of g bs] groupIndices_props [of g0 bs] by auto
    have d0: "distinct js0" and d: "distinct js"
      using js js0 groupIndices_props by simp_all
    have agree: "\<forall>k\<in>set js. distributeGroup js0 pb ! k = pb ! k"
    proof
      fix k assume k: "k \<in> set js"
      then have "k < length pb" using Cons.prems(3) js groupIndices_props [of g bs] by simp
      then show "distributeGroup js0 pb ! k = pb ! k"
        using distributeGroup_outside [of k js0 pb] disj k d0 by simp
    qed
    have ih: "distributeAll gs (distributeGroup js0 pb) ! i = distributeGroup js (distributeGroup js0 pb) ! i"
      using Cons.IH [of "distributeGroup js0 pb"] Cons.prems m
      by (simp add: length_distributeGroup)
    have "distributeGroup js (distributeGroup js0 pb) ! i = distributeGroup js pb ! i"
      using distributeGroup_agree [of js "distributeGroup js0 pb" pb i] agree d Cons.prems(5) ilen
      by (simp add: length_distributeGroup)
    then show ?thesis using ih a by (simp add: distributeAll_Cons)
  qed
qed

lemma processBlocks_group:
  assumes "i \<in> set (groupIndices g bs)"
  shows "processBlocks bs ! i = distributeGroup (groupIndices g bs) bs ! i"
proof -
  have ne: "groupIndices g bs \<noteq> []" using assms by auto
  have d: "distinct (map fst (groupMap bs))"
    using groupMap_lookup [of bs] by simp
  have e: "\<forall>(g, js)\<in>set (groupMap bs). js = groupIndices g bs"
    using groupMap_entry by blast
  have m: "(g, groupIndices g bs) \<in> set (groupMap bs)"
    by (rule groupMap_has_entry [OF ne])
  have "distributeAll (groupMap bs) bs ! i = distributeGroup (groupIndices g bs) bs ! i"
    by (rule distributeAll_group [OF d e refl m assms])
  then show ?thesis by (simp add: processBlocks_def distributeAll_def)
qed


lemma map_of_zip_nth_short:
  assumes "distinct xs" and "k < length xs"
  shows "map_of (zip xs ys) (xs ! k) = (if k < length ys then Some (ys ! k) else None)"
  using assms
proof (induction xs arbitrary: ys k)
  case Nil
  then show ?case by simp
next
  case (Cons x xs)
  show ?case
  proof (cases ys)
    case Nil
    then show ?thesis by simp
  next
    case (Cons y ys')
    show ?thesis
    proof (cases k)
      case 0
      then show ?thesis using Cons by simp
    next
      case (Suc k')
      then have "xs ! k' \<noteq> x" using Cons.prems by auto
      then show ?thesis using Suc Cons Cons.IH [of k' ys'] Cons.prems by simp
    qed
  qed
qed

lemma distributeGroup_deals:
  assumes "distinct js" and "\<forall>i\<in>set js. i < length pb" and "length js > 1"
    and "List.find (\<lambda>idx. hasContent (block_content (pb ! idx))) js = Some b"
    and "contentLines (block_content (pb ! b)) = l0 # ls" and "ls \<noteq> []"
    and "E = filter (\<lambda>idx. idx \<noteq> b \<and> \<not> hasContent (block_content (pb ! idx))) js"
    and "E \<noteq> []"
  shows "distributeGroup js pb ! b = (pb ! b)\<lparr>block_content := l0\<rparr> \<and>
     (\<forall>k<length E. distributeGroup js pb ! (E ! k) =
        (if k < length ls then (pb ! (E ! k))\<lparr>block_content := ls ! k\<rparr> else pb ! (E ! k)))"
proof -
  obtain l1 rest where ls: "ls = l1 # rest" using assms(6) by (cases ls) auto
  have bin: "b \<in> set js" using assms(4) find_in_set by fastforce
  then have blen: "b < length pb" using assms(2) by simp
  have dE: "distinct E" using assms(1,7) by simp
  have eq: "distributeGroup js pb = assignLines ls E (pb[b := (pb ! b)\<lparr>block_content := l0\<rparr>])"
    using assms(3,4,5,7,8) ls by (simp add: distributeGroup_def Let_def)
  have bE: "map_of (zip E ls) b = None"
    using assms(7) by (auto simp add: map_of_eq_None_iff dest: set_zip_leftD)
  have first: "distributeGroup js pb ! b = (pb ! b)\<lparr>block_content := l0\<rparr>"
    using blen bE by (simp add: eq assignLines_nth [OF dE])
  have others: "distributeGroup js pb ! (E ! k) =
        (if k < length ls then (pb ! (E ! k))\<lparr>block_content := ls ! k\<rparr> else pb ! (E ! k))"
    if k: "k < length E" for k
  proof -
    have m: "E ! k \<in> set E" using k by simp
    then have ne: "E ! k \<noteq> b" and inj: "E ! k \<in> set js" using assms(7) by auto
    then have len: "E ! k < length pb" using assms(2) by simp
    show ?thesis
      using ne len map_of_zip_nth_short [OF dE k, of ls]
      by (simp add: eq assignLines_nth [OF dE])
  qed
  show ?thesis using first others by simp
qed

text \<open>
  When the populated block is the first block of its group, the redistribution is the one
  the specification describes: with \<open>b\<close> the first index of group \<open>g\<close>, \<open>es\<close> the other
  indices of the group in document order, all of them empty, and \<open>l0 # ls\<close> the non-blank
  lines of the content of \<open>b\<close>, block \<open>b\<close> keeps \<open>l0\<close>, the \<open>k\<close>-th empty sibling receives
  line \<open>ls ! k\<close> while lines last, and the siblings beyond stay as they were. Nothing but
  the content of a block changes.
\<close>

theorem processBlocks_distributes:
  assumes "groupIndices g bs = b # es" and "es \<noteq> []"
    and "hasContent (block_content (bs ! b))"
    and "\<forall>e\<in>set es. \<not> hasContent (block_content (bs ! e))"
    and "contentLines (block_content (bs ! b)) = l0 # ls" and "ls \<noteq> []"
  shows "processBlocks bs ! b = (bs ! b)\<lparr>block_content := l0\<rparr> \<and>
     (\<forall>k<length es. processBlocks bs ! (es ! k) =
        (if k < length ls then (bs ! (es ! k))\<lparr>block_content := ls ! k\<rparr> else bs ! (es ! k)))"
proof -
  let ?js = "groupIndices g bs"
  have d: "distinct ?js" and r: "\<forall>i\<in>set ?js. i < length bs"
    using groupIndices_props [of g bs] by simp_all
  have bnot: "b \<notin> set es" using d assms(1) by simp
  have f: "List.find (\<lambda>idx. hasContent (block_content (bs ! idx))) ?js = Some b"
    using assms(1,3) by simp
  have E: "es = filter (\<lambda>idx. idx \<noteq> b \<and> \<not> hasContent (block_content (bs ! idx))) ?js"
  proof -
    have "filter (\<lambda>idx. idx \<noteq> b \<and> \<not> hasContent (block_content (bs ! idx))) es = es"
      using assms(4) bnot by (intro filter_True) auto
    then show ?thesis using assms(1,3) by simp
  qed
  have len: "length ?js > 1" using assms(1,2) by (cases es) auto
  have deal: "distributeGroup ?js bs ! b = (bs ! b)\<lparr>block_content := l0\<rparr> \<and>
     (\<forall>k<length es. distributeGroup ?js bs ! (es ! k) =
        (if k < length ls then (bs ! (es ! k))\<lparr>block_content := ls ! k\<rparr> else bs ! (es ! k)))"
    by (rule distributeGroup_deals [OF d r len f assms(5) assms(6) E assms(2)])
  have pb: "processBlocks bs ! b = distributeGroup ?js bs ! b"
    using processBlocks_group [of b g bs] assms(1) by simp
  have pk: "processBlocks bs ! (es ! k) = distributeGroup ?js bs ! (es ! k)" if "k < length es" for k
    using processBlocks_group [of "es ! k" g bs] assms(1) that by simp
  show ?thesis using deal pb pk by simp
qed


theorem processBlocks_distributes_witness:
  "block_content (processBlocks
      [textBlock 0 1 (''line1'' @ [CHR 0x0A] @ ''line2''), textBlock 1 1 '''', textBlock 2 1 '''',
       textBlock 3 2 ''other''] ! 0) = ''line1'' \<and>
   block_content (processBlocks
      [textBlock 0 1 (''line1'' @ [CHR 0x0A] @ ''line2''), textBlock 1 1 '''', textBlock 2 1 '''',
       textBlock 3 2 ''other''] ! 1) = ''line2'' \<and>
   block_content (processBlocks
      [textBlock 0 1 (''line1'' @ [CHR 0x0A] @ ''line2''), textBlock 1 1 '''', textBlock 2 1 '''',
       textBlock 3 2 ''other''] ! 2) = ''''"
proof -
  let ?bs = "[textBlock 0 1 (''line1'' @ [CHR 0x0A] @ ''line2''), textBlock 1 1 '''',
              textBlock 2 1 '''', textBlock 3 2 ''other'']"
  have g: "groupIndices 1 ?bs = 0 # [1, 2]"
    by (simp add: groupIndices_def textBlock_def upt_rec)
  have ne: "[1, 2] \<noteq> ([] :: nat list)" by simp
  have c: "hasContent (block_content (?bs ! 0))"
    by (simp add: textBlock_def hasContent_def trim_def isWhiteSpace_def)
  have e: "\<forall>e\<in>set [1, 2]. \<not> hasContent (block_content (?bs ! e))"
    by (simp add: textBlock_def hasContent_def)
  have l: "contentLines (block_content (?bs ! 0)) = ''line1'' # [''line2'']"
    by (simp add: textBlock_def contentLines_def trim_def isWhiteSpace_def)
  have n: "[''line2''] \<noteq> []" by simp
  show ?thesis
    using processBlocks_distributes [OF g ne c e l n]
    by (simp add: textBlock_def less_Suc_eq)
qed

text \<open>
  C3 fails when an empty block of the group precedes the populated one. The list of empty
  siblings is every empty block of the group in document order, not only the blocks after
  the populated one (the comment in the source says "there are empty blocks following"),
  and the remaining lines are dealt out from its front. With three blocks of group 1 whose
  contents are empty, two lines, and empty, the second line goes to the block before the
  populated one, and the block after it stays empty.
\<close>

theorem processBlocks_fills_preceding_block:
  "map block_content
     (processBlocks [textBlock 0 1 '''', textBlock 1 1 (''line1'' @ [CHR 0x0A] @ ''line2''),
                     textBlock 2 1 ''''])
     = [''line2'', ''line1'', '''']"
  by (simp add: processBlocks_def groupMap_def distributeGroup_def textBlock_def hasContent_def
      trim_def isWhiteSpace_def contentLines_def)

subsection \<open>Further facts about the modelled functions\<close>

text \<open>What \<^verbatim>\<open>fetchJobs\<close> does to the list on success is the resynchronization operation.\<close>

lemma fetchJobs_is_resync:
  "fetchJobs True (Response True (Some listing)) l = applyOp l (OpResync listing)"
  by (simp add: fetchJobs_def)

lemma fetchJobs_failure_keeps_list:
  "fetchJobs False resp l = l \<and> fetchJobs c NetworkError l = l \<and> fetchJobs c (Response False b) l = l"
  by (simp add: fetchJobs_def)

text \<open>\<^verbatim>\<open>getResultData\<close> prefers the current job to the job that is being processed.\<close>

lemma selectJob_current:
  "findJob i js = Some j \<Longrightarrow> selectJob js (Some i) procId = Some j"
  by (simp add: selectJob_def findById_def)

lemma selectJob_processing:
  "findJob i js = Some j \<Longrightarrow> i \<noteq> [] \<Longrightarrow> selectJob js None (Some i) = Some j"
  by (simp add: selectJob_def findById_def)

text \<open>
  After the redistribution the blocks view drops the blocks that are still empty, except
  the visual ones: with two lines for three members of group 1 the third member is
  dropped, and the empty image block of group 2 is kept.
\<close>

lemma filteredBlocks_example:
  "map block_id
     (filteredBlocks
        [textBlock 0 1 (''line1'' @ [CHR 0x0A] @ ''line2''), textBlock 1 1 '''', textBlock 2 1 '''',
         (textBlock 3 2 '''')\<lparr>block_label := ''image''\<rparr>])
     = [0, 1, 3]"
  by (simp add: filteredBlocks_def processBlocks_def groupMap_def distributeGroup_def textBlock_def
      hasContent_def trim_def isWhiteSpace_def contentLines_def visualBlockTypes_def)

end
